theory Spec2Isabelle
  imports Main "HOL-Library.Sublist" "HOL-Library.Multiset"
begin

section \<open>JavaScript strings\<close>

text \<open>
  A JavaScript string is a sequence of UTF-16 code units. The development models the
  strings whose code units lie in U+0000..U+00FF: a \<^typ>\<open>string\<close> is a list of
  8-bit characters and \<^term>\<open>of_char c\<close> is the code unit. The built-ins below
  follow ECMA-262 on that range.
\<close>

text \<open>
  \<^verbatim>\<open>\s\<close> of a regular expression and \<^verbatim>\<open>String.prototype.trim\<close> use the same
  set, WhiteSpace and LineTerminator: TAB, LF, VT, FF, CR, SP and NBSP below U+0100.
\<close>

definition isWhiteSpace :: "char \<Rightarrow> bool" where
  "isWhiteSpace c = (let n = (of_char c :: nat) in
     n = 9 \<or> n = 10 \<or> n = 11 \<or> n = 12 \<or> n = 13 \<or> n = 32 \<or> n = 160)"

text \<open>\<^verbatim>\<open>\w\<close> is \<^verbatim>\<open>[A-Za-z0-9_]\<close>.\<close>

definition isWordChar :: "char \<Rightarrow> bool" where
  "isWordChar c = (let n = (of_char c :: nat) in
     (48 \<le> n \<and> n \<le> 57) \<or> (65 \<le> n \<and> n \<le> 90) \<or> n = 95 \<or> (97 \<le> n \<and> n \<le> 122))"

text \<open>
  \<^verbatim>\<open>toLowerCase\<close>: A-Z and the Latin-1 capitals U+00C0..U+00DE (without the
  multiplication sign U+00D7) move up by 32; every other code unit of the range has no
  lower-case mapping.
\<close>

definition toLowerCase_char :: "char \<Rightarrow> char" where
  "toLowerCase_char c = (let n = (of_char c :: nat) in
     if (65 \<le> n \<and> n \<le> 90) \<or> (192 \<le> n \<and> n \<le> 222 \<and> n \<noteq> 215)
     then char_of (n + 32) else c)"

definition toLowerCase :: "string \<Rightarrow> string" where
  "toLowerCase s = map toLowerCase_char s"

definition trim :: "string \<Rightarrow> string" where
  "trim s = rev (dropWhile isWhiteSpace (rev (dropWhile isWhiteSpace s)))"

text \<open>
  \<^verbatim>\<open>a.startsWith(b)\<close>: false when \<open>b\<close> is longer than \<open>a\<close>, otherwise the
  comparison of \<open>b\<close> with the first \<open>length b\<close> code units of \<open>a\<close>.
\<close>

definition startsWith :: "string \<Rightarrow> string \<Rightarrow> bool" where
  "startsWith a b = (length b \<le> length a \<and> take (length b) a = b)"

definition startsWithWhiteSpace :: "string \<Rightarrow> bool" where
  "startsWithWhiteSpace s = (case s of [] \<Rightarrow> False | c # _ \<Rightarrow> isWhiteSpace c)"

definition endsWithWhiteSpace :: "string \<Rightarrow> bool" where
  "endsWithWhiteSpace s = startsWithWhiteSpace (rev s)"

section \<open>server.cjs: JioSaavn._findMatchingTrack\<close>

text \<open>
  The payload of \<^verbatim>\<open>_createSongPayload\<close>. Its string fields default to \<^verbatim>\<open>''\<close>
  and its artist fields to \<^verbatim>\<open>[]\<close>, so an absent value is the empty string or list.
\<close>

record artist =
  artist_name :: string
  artist_id :: string

record song =
  song_id :: string
  song_name :: string
  song_duration :: int
  album_name :: string
  artists_primary :: "artist list"
  artists_all :: "artist list"
  downloadUrl :: string
  image :: string

text \<open>
  \<^verbatim>\<open>const normalize = (text) =>
    (text || '').toString().trim().toLowerCase().replace(/[^\w\s]/g, '');\<close>
  An absent text reads as the empty string, which is how the model writes it.
\<close>

definition normalize :: "string \<Rightarrow> string" where
  "normalize text = filter (\<lambda>c. isWordChar c \<or> isWhiteSpace c) (toLowerCase (trim text))"

text \<open>\<^verbatim>\<open>const startsEither = (a, b) => a.startsWith(b) || b.startsWith(a);\<close>\<close>

definition startsEither :: "string \<Rightarrow> string \<Rightarrow> bool" where
  "startsEither a b = (startsWith a b \<or> startsWith b a)"

text \<open>The comparison of two names as the matcher makes it at each of its uses.\<close>

definition namesOverlap :: "string \<Rightarrow> string \<Rightarrow> bool" where
  "namesOverlap a b = startsEither (normalize a) (normalize b)"

definition allArtists :: "song \<Rightarrow> string list" where
  "allArtists track = map artist_name (artists_primary track @ artists_all track)"

definition artistMatches :: "song \<Rightarrow> string \<Rightarrow> bool" where
  "artistMatches track artist =
     list_ex (\<lambda>a. startsEither (normalize artist) (normalize a)) (allArtists track)"

definition titleMatches :: "song \<Rightarrow> string \<Rightarrow> bool" where
  "titleMatches track title = startsEither (normalize title) (normalize (song_name track))"

text \<open>The \<^verbatim>\<open>for (const track of processedResults)\<close> loop; \<^verbatim>\<open>!artist\<close> holds of the empty string only.\<close>

fun findMatchingTrack_loop :: "song list \<Rightarrow> string \<Rightarrow> string \<Rightarrow> song option" where
  "findMatchingTrack_loop [] title artist = None"
| "findMatchingTrack_loop (track # rest) title artist =
     (if titleMatches track title \<and> (artistMatches track artist \<or> artist = [])
      then Some track
      else findMatchingTrack_loop rest title artist)"

text \<open>
  After the loop: \<^verbatim>\<open>processedResults.find(t => ...) || processedResults[0]\<close>. A track
  is an object, hence truthy; \<^verbatim>\<open>undefined\<close> is \<^term>\<open>None\<close>.
\<close>

definition findMatchingTrack :: "song list \<Rightarrow> string \<Rightarrow> string \<Rightarrow> song option" where
  "findMatchingTrack processedResults title artist =
     (case findMatchingTrack_loop processedResults title artist of
        Some track \<Rightarrow> Some track
      | None \<Rightarrow>
          (case find (\<lambda>t. startsEither (normalize title) (normalize (song_name t))) processedResults of
             Some t \<Rightarrow> Some t
           | None \<Rightarrow> (case processedResults of [] \<Rightarrow> None | t # _ \<Rightarrow> Some t)))"

text \<open>
  The selection as the specification words it: the first candidate whose title overlaps
  the title query and whose artists, when an artist is asked for, overlap the artist
  query; else the first whose title overlaps; else the first; else none.
\<close>

definition selectBestCandidate_spec :: "song list \<Rightarrow> string \<Rightarrow> string \<Rightarrow> song option" where
  "selectBestCandidate_spec candidates titleQuery artistQuery =
     (case find (\<lambda>c. namesOverlap (song_name c) titleQuery \<and>
                     (artistQuery = [] \<or>
                      (\<exists>a \<in> set (artists_primary c @ artists_all c).
                         namesOverlap (artist_name a) artistQuery))) candidates of
        Some c \<Rightarrow> Some c
      | None \<Rightarrow>
          (case find (\<lambda>c. namesOverlap (song_name c) titleQuery) candidates of
             Some c \<Rightarrow> Some c
           | None \<Rightarrow> (if candidates = [] then None else Some (hd candidates))))"


text \<open>
  The two candidates of the specification's example, as \<^verbatim>\<open>_createSongPayload\<close> builds
  them from \<^verbatim>\<open>{title: "Blinding Lights", primary_artists: ["The Weeknd"]}\<close> and
  \<^verbatim>\<open>{title: "Blinding Lights (Remix)", primary_artists: ["DJ X"]}\<close>.
\<close>

definition blindingLights :: song where
  "blindingLights = \<lparr>song_id = ''1'', song_name = ''Blinding Lights'', song_duration = 0,
     album_name = [], artists_primary = [\<lparr>artist_name = ''The Weeknd'', artist_id = []\<rparr>],
     artists_all = [], downloadUrl = [], image = []\<rparr>"

definition blindingLightsRemix :: song where
  "blindingLightsRemix = \<lparr>song_id = ''2'', song_name = ''Blinding Lights (Remix)'',
     song_duration = 0, album_name = [],
     artists_primary = [\<lparr>artist_name = ''DJ X'', artist_id = []\<rparr>],
     artists_all = [], downloadUrl = [], image = []\<rparr>"

section \<open>youtubeService.js: getStreamUrl\<close>

text \<open>
  The values of the \<^verbatim>\<open>bitrate\<close> field of a decoded descriptor that the development
  covers: absent (\<^verbatim>\<open>undefined\<close>), a number that is an integer, or a string. A number
  with a fraction is not among them.
\<close>

datatype jsvalue = Undefined | JNumber int | JString string

text \<open>Truthiness, as \<^verbatim>\<open>||\<close> and \<^verbatim>\<open>&&\<close> test it.\<close>

fun truthy :: "jsvalue \<Rightarrow> bool" where
  "truthy Undefined = False"
| "truthy (JNumber n) = (n \<noteq> 0)"
| "truthy (JString s) = (s \<noteq> [])"

text \<open>
  A number as the code computes with it: \<^verbatim>\<open>NaN\<close>, or an integer below \<open>2^52\<close> in
  magnitude. Such integers, their sums and their differences are doubles, so the
  arithmetic of the code on them is the arithmetic of the integers. \<open>Unmodelled\<close> stands
  for every other double (a larger number, where a double rounds, and the infinities);
  the development says nothing about a computation that meets one.
\<close>

datatype number = NaN | Num int | Unmodelled

definition exactBound :: int where
  "exactBound = 4503599627370496"

definition exact :: "int \<Rightarrow> number" where
  "exact n = (if - exactBound < n \<and> n < exactBound then Num n else Unmodelled)"

text \<open>
  \<^verbatim>\<open>parseInt(string)\<close> without a radix (ECMA-262, 19.2.5): skip leading whitespace,
  read a sign, read the prefix \<^verbatim>\<open>0x\<close> or \<^verbatim>\<open>0X\<close> as radix 16, take the longest
  run of digits of the radix, and answer \<^verbatim>\<open>NaN\<close> when the run is empty. The result
  is the double nearest to the integer the digits denote: the integer itself within the
  bound.
\<close>

definition digitValue :: "char \<Rightarrow> nat option" where
  "digitValue c = (let n = (of_char c :: nat) in
     if 48 \<le> n \<and> n \<le> 57 then Some (n - 48)
     else if 97 \<le> n \<and> n \<le> 102 then Some (n - 87)
     else if 65 \<le> n \<and> n \<le> 70 then Some (n - 55)
     else None)"

definition isRadixDigit :: "nat \<Rightarrow> char \<Rightarrow> bool" where
  "isRadixDigit R c = (case digitValue c of None \<Rightarrow> False | Some d \<Rightarrow> d < R)"

definition digitsValue :: "nat \<Rightarrow> string \<Rightarrow> int" where
  "digitsValue R Z =
     foldl (\<lambda>acc c. acc * int R + (case digitValue c of None \<Rightarrow> 0 | Some d \<Rightarrow> int d)) 0 Z"

definition parseInt_string :: "string \<Rightarrow> number" where
  "parseInt_string inputString =
     (let S = dropWhile isWhiteSpace inputString;
          sign = (if take 1 S = ''-'' then - 1 else 1);
          S1 = (if take 1 S = ''-'' \<or> take 1 S = ''+'' then drop 1 S else S);
          hex = (take 2 S1 = ''0x'' \<or> take 2 S1 = ''0X'');
          R = (if hex then 16 else 10);
          S2 = (if hex then drop 2 S1 else S1);
          Z = takeWhile (isRadixDigit R) S2
      in if Z = [] then NaN else exact (sign * digitsValue R Z))"

text \<open>
  \<^verbatim>\<open>parseInt(value)\<close> converts its argument to a string first: \<^verbatim>\<open>"undefined"\<close> has
  no digits, and the string of an integer within the bound is its decimal numeral, which
  reads back as that integer. (From \<open>10^21\<close> the string of a number has an exponent, and
  an infinite number reads as \<^verbatim>\<open>NaN\<close>; both are beyond the bound.)
\<close>

fun parseInt :: "jsvalue \<Rightarrow> number" where
  "parseInt Undefined = NaN"
| "parseInt (JNumber n) = exact n"
| "parseInt (JString s) = parseInt_string s"

text \<open>
  What a failing call throws or rejects with: \<^verbatim>\<open>new Error(message)\<close> of the code
  itself, a \<^verbatim>\<open>TypeError\<close> of the language (a property of \<^verbatim>\<open>null\<close> or
  \<^verbatim>\<open>undefined\<close>, a call of something that is no function), a rejected
  \<^verbatim>\<open>fetch\<close>, a body that is not JSON, and the \<^verbatim>\<open>URIError\<close> of a malformed
  escape sequence. The last three are no errors of the language but the borders of this
  development: \<open>BeyondLatin1\<close> marks a result that holds a code unit above U+00FF, which
  the strings here do not have; \<open>OutsideModel\<close> marks a computation on a number that
  is \<open>Unmodelled\<close>; \<open>EngineDefined\<close> marks a sort whose order the standard leaves
  to the engine.
\<close>

datatype error =
  Error string | TypeError | FetchError | SyntaxError | URIError
  | BeyondLatin1 | OutsideModel | EngineDefined

text \<open>
  \<^verbatim>\<open>Array.prototype.sort(comparefn)\<close>. The sort reads the comparator through
  SortCompare, where a result \<^verbatim>\<open>NaN\<close> counts as \<open>+0\<close>, and uses the sign of what
  it reads.
\<close>

definition sortCompare :: "('a \<Rightarrow> 'a \<Rightarrow> number) \<Rightarrow> 'a \<Rightarrow> 'a \<Rightarrow> int" where
  "sortCompare comparefn x y = (case comparefn x y of Num v \<Rightarrow> v | _ \<Rightarrow> 0)"

text \<open>
  The comparisons among the elements make a consistent ordering when they are
  antisymmetric in their sign and transitive: then "not after" is a total preorder,
  equal elements are those that compare as 0, and the sort, which is stable, has one
  possible result: the elements in ascending order, equal elements in their original
  order. Otherwise the standard leaves the order to the engine.
\<close>

definition consistent :: "('a \<Rightarrow> 'a \<Rightarrow> number) \<Rightarrow> 'a list \<Rightarrow> bool" where
  "consistent comparefn xs =
     list_all (\<lambda>x. list_all (\<lambda>y.
         sgn (sortCompare comparefn x y) = - sgn (sortCompare comparefn y x)
         \<and> list_all (\<lambda>z. sortCompare comparefn x y \<le> 0 \<and> sortCompare comparefn y z \<le> 0
                          \<longrightarrow> sortCompare comparefn x z \<le> 0) xs) xs) xs"

definition modelled :: "('a \<Rightarrow> 'a \<Rightarrow> number) \<Rightarrow> 'a list \<Rightarrow> bool" where
  "modelled comparefn xs = list_all (\<lambda>x. list_all (\<lambda>y. comparefn x y \<noteq> Unmodelled) xs) xs"

text \<open>
  The stable sorted order, by insertion from the right: an element moves behind exactly
  the elements that the comparator puts before it.
\<close>

fun sort_insert :: "('a \<Rightarrow> 'a \<Rightarrow> number) \<Rightarrow> 'a \<Rightarrow> 'a list \<Rightarrow> 'a list" where
  "sort_insert comparefn x [] = [x]"
| "sort_insert comparefn x (y # ys) =
     (if 0 < sortCompare comparefn x y then y # sort_insert comparefn x ys else x # y # ys)"

fun stable_sort :: "('a \<Rightarrow> 'a \<Rightarrow> number) \<Rightarrow> 'a list \<Rightarrow> 'a list" where
  "stable_sort comparefn [] = []"
| "stable_sort comparefn (x # xs) = sort_insert comparefn x (stable_sort comparefn xs)"

definition array_sort :: "('a \<Rightarrow> 'a \<Rightarrow> number) \<Rightarrow> 'a list \<Rightarrow> error + 'a list" where
  "array_sort comparefn xs =
     (if \<not> modelled comparefn xs then Inl OutsideModel
      else if \<not> consistent comparefn xs then Inl EngineDefined
      else Inr (stable_sort comparefn xs))"

text \<open>An adaptive format of the extraction API: \<^verbatim>\<open>type\<close>, \<^verbatim>\<open>bitrate\<close>, \<^verbatim>\<open>url\<close>.\<close>

record format =
  fmt_type :: "string option"
  fmt_bitrate :: jsvalue
  fmt_url :: string

text \<open>\<^verbatim>\<open>format.type && format.type.startsWith('audio')\<close>\<close>

definition isAudio :: "format \<Rightarrow> bool" where
  "isAudio fmt = (case fmt_type fmt of None \<Rightarrow> False | Some t \<Rightarrow> t \<noteq> [] \<and> startsWith t ''audio'')"

definition audioStreams :: "format list \<Rightarrow> format list" where
  "audioStreams adaptiveFormats = filter isAudio adaptiveFormats"

text \<open>\<^verbatim>\<open>parseInt(a.bitrate || 0)\<close>\<close>

definition bitrateOf :: "format \<Rightarrow> number" where
  "bitrateOf a = parseInt (if truthy (fmt_bitrate a) then fmt_bitrate a else JNumber 0)"

text \<open>
  The comparator of the sort, \<^verbatim>\<open>bitrateB - bitrateA\<close>; the difference is \<^verbatim>\<open>NaN\<close>
  when either operand is.
\<close>

definition compareBitrate :: "format \<Rightarrow> format \<Rightarrow> number" where
  "compareBitrate a b =
     (if bitrateOf a = Unmodelled \<or> bitrateOf b = Unmodelled then Unmodelled
      else (case (bitrateOf a, bitrateOf b) of
              (Num bitrateA, Num bitrateB) \<Rightarrow> Num (bitrateB - bitrateA)
            | _ \<Rightarrow> NaN))"

text \<open>
  \<^verbatim>\<open>getStreamUrl\<close> from the decoded \<^verbatim>\<open>data.adaptiveFormats\<close> to \<^verbatim>\<open>selectedStream\<close>.
  The three indices are within the sorted array, which is not empty at that point.
\<close>

definition getStreamUrl_selectedStream :: "format list option \<Rightarrow> string \<Rightarrow> error + format" where
  "getStreamUrl_selectedStream adaptiveFormats quality =
     (case adaptiveFormats of
        None \<Rightarrow> Inl (Error ''No adaptive formats found'')
      | Some fmts \<Rightarrow>
          if fmts = [] then Inl (Error ''No adaptive formats found'')
          else if audioStreams fmts = [] then Inl (Error ''No audio streams found'')
          else
            (case array_sort compareBitrate (audioStreams fmts) of
               Inl e \<Rightarrow> Inl e
             | Inr sortedArray \<Rightarrow>
                 if quality = ''high'' then Inr (sortedArray ! 0)
                 else if quality = ''low'' then Inr (sortedArray ! (length sortedArray - 1))
                 else Inr (sortedArray ! (length sortedArray div 2))))"

text \<open>The audio variants in stable order of descending bitrate, and the bitrate of a variant.\<close>

definition sortedStreams :: "format list \<Rightarrow> format list" where
  "sortedStreams adaptiveFormats = stable_sort compareBitrate (audioStreams adaptiveFormats)"

definition bitrate_int :: "format \<Rightarrow> int" where
  "bitrate_int a = (case bitrateOf a of Num n \<Rightarrow> n | _ \<Rightarrow> 0)"

definition audioFormat :: "jsvalue \<Rightarrow> string \<Rightarrow> format" where
  "audioFormat b u = \<lparr>fmt_type = Some ''audio/webm'', fmt_bitrate = b, fmt_url = u\<rparr>"

text \<open>The variants of the specification's example, bitrates 320, 256, 128 and 64.\<close>

definition exampleVariants :: "format list" where
  "exampleVariants = [audioFormat (JNumber 320) ''u320'', audioFormat (JNumber 256) ''u256'',
     audioFormat (JNumber 128) ''u128'', audioFormat (JNumber 64) ''u64'']"

text \<open>
  A response in the shape of the extraction API: a video format, and audio formats
  whose bitrates are decimal strings, a number, or absent.
\<close>

definition mixedFormats :: "format list" where
  "mixedFormats =
     [\<lparr>fmt_type = Some ''video/mp4'', fmt_bitrate = JString ''900000'', fmt_url = ''v''\<rparr>,
      audioFormat (JString ''128000'') ''a1'', audioFormat Undefined ''a2'',
      audioFormat (JNumber 64000) ''a3'', audioFormat (JString ''320000'') ''a4'']"

text \<open>Two audio formats, the first with a bitrate that is not a numeral.\<close>

definition unparseableFormats :: "format list" where
  "unparseableFormats =
     [audioFormat (JString ''abc'') ''u1'', audioFormat (JString ''128000'') ''u2'']"

text \<open>Four audio formats whose comparisons are no consistent ordering.\<close>

definition inconsistentFormats :: "format list" where
  "inconsistentFormats =
     [audioFormat (JNumber 64000) ''b1'', audioFormat (JNumber 320000) ''b2'',
      audioFormat (JString ''abc'') ''b3'', audioFormat (JNumber 128000) ''b4'']"

section \<open>youtubeService.js: the search clients\<close>

text \<open>
  A decoded JSON document. An object is the list of its members; \<^term>\<open>map_of\<close> reads a
  member, so the list holds each name once, as the decoder leaves it.
\<close>

datatype json =
  JNull | JBool bool | JNum int | JStr string | JArr "json list" | JObj "(string \<times> json) list"

text \<open>A value read from a document: \<^term>\<open>None\<close> is \<^verbatim>\<open>undefined\<close>.\<close>

fun truthy_json :: "json option \<Rightarrow> bool" where
  "truthy_json None = False"
| "truthy_json (Some JNull) = False"
| "truthy_json (Some (JBool b)) = b"
| "truthy_json (Some (JNum n)) = (n \<noteq> 0)"
| "truthy_json (Some (JStr s)) = (s \<noteq> [])"
| "truthy_json (Some (JArr xs)) = True"
| "truthy_json (Some (JObj kvs)) = True"

text \<open>
  The property read \<^verbatim>\<open>value.key\<close> for the member names the clients read
  (\<^verbatim>\<open>data\<close>, \<^verbatim>\<open>results\<close>, \<^verbatim>\<open>items\<close>, \<^verbatim>\<open>isShort\<close>, \<^verbatim>\<open>type\<close>), none of which a
  boolean, number, string or array has: a \<^verbatim>\<open>TypeError\<close> on \<^verbatim>\<open>null\<close>, the member of an
  object, \<^verbatim>\<open>undefined\<close> otherwise.
\<close>

fun getProp :: "json \<Rightarrow> string \<Rightarrow> error + json option" where
  "getProp JNull key = Inl TypeError"
| "getProp (JObj kvs) key = Inr (map_of kvs key)"
| "getProp v key = Inr None"

text \<open>
  A response of \<^verbatim>\<open>fetch\<close>: its status and its body as \<^verbatim>\<open>response.json()\<close> decodes
  it, \<^term>\<open>None\<close> when the body is not JSON. A rejected \<^verbatim>\<open>fetch\<close> is an error.
\<close>

record response =
  status :: nat
  body_json :: "json option"

definition ok :: "response \<Rightarrow> bool" where
  "ok r = (200 \<le> status r \<and> status r \<le> 299)"

text \<open>The decimal numeral of a status in a template string.\<close>

function decimal :: "nat \<Rightarrow> string" where
  "decimal n = (if n < 10 then [char_of (48 + n)] else decimal (n div 10) @ [char_of (48 + n mod 10)])"
  by pat_completeness auto
termination
  by (relation "measure id") auto

declare decimal.simps [simp del]

text \<open>The search result both clients build, one per item of the response.\<close>

record track =
  track_id :: "string option"
  track_title :: "string option"
  track_name :: "string option"
  thumbnail :: "string option"
  channelTitle :: "string option"
  duration :: "int option"
  track_url :: "string option"
  isOfficial :: bool
  track_artists :: "string option list option"

text \<open>
  \<^verbatim>\<open>array.map(callback)\<close> with a callback that can throw: the first failure ends the
  call.
\<close>

fun mapItems :: "('a \<Rightarrow> error + 'b) \<Rightarrow> 'a list \<Rightarrow> error + 'b list" where
  "mapItems f [] = Inr []"
| "mapItems f (x # xs) =
     (case f x of
        Inl e \<Rightarrow> Inl e
      | Inr y \<Rightarrow> (case mapItems f xs of Inl e \<Rightarrow> Inl e | Inr ys \<Rightarrow> Inr (y # ys)))"

text \<open>\<^verbatim>\<open>data.data?.results || data.results || data.data || []\<close>\<close>

definition jioSaavn_results :: "json \<Rightarrow> error + json option" where
  "jioSaavn_results data =
     (case getProp data ''data'' of
        Inl e \<Rightarrow> Inl e
      | Inr d \<Rightarrow>
          (case (case d of None \<Rightarrow> Inr None | Some JNull \<Rightarrow> Inr None | Some v \<Rightarrow> getProp v ''results'') of
             Inl e \<Rightarrow> Inl e
           | Inr r1 \<Rightarrow>
               if truthy_json r1 then Inr r1
               else (case getProp data ''results'' of
                       Inl e \<Rightarrow> Inl e
                     | Inr r2 \<Rightarrow>
                         if truthy_json r2 then Inr r2
                         else if truthy_json d then Inr d
                         else Inr (Some (JArr [])))))"

text \<open>
  The \<^verbatim>\<open>try\<close> block of \<^verbatim>\<open>searchJioSaavn\<close>. The callback of \<^verbatim>\<open>results.map\<close>, which
  reads the fields of one item and throws on an item it cannot read, is the parameter
  \<open>mapItem\<close>.
\<close>

definition searchJioSaavn_try :: "(json \<Rightarrow> error + track) \<Rightarrow> error + response \<Rightarrow> error + track list" where
  "searchJioSaavn_try mapItem fetched =
     (case fetched of
        Inl e \<Rightarrow> Inl e
      | Inr response \<Rightarrow>
          if \<not> ok response then Inl (Error ''JioSaavn search failed'')
          else (case body_json response of
                  None \<Rightarrow> Inl SyntaxError
                | Some data \<Rightarrow>
                    (case jioSaavn_results data of
                       Inl e \<Rightarrow> Inl e
                     | Inr (Some (JArr results)) \<Rightarrow> mapItems mapItem results
                     | Inr _ \<Rightarrow> Inr [])))"

text \<open>\<^verbatim>\<open>catch (error) { console.error(...); return []; }\<close>\<close>

definition searchJioSaavn :: "(json \<Rightarrow> error + track) \<Rightarrow> error + response \<Rightarrow> error + track list" where
  "searchJioSaavn mapItem fetched =
     (case searchJioSaavn_try mapItem fetched of Inl e \<Rightarrow> Inr [] | Inr tracks \<Rightarrow> Inr tracks)"

text \<open>\<^verbatim>\<open>item => !item.isShort && item.type === 'stream'\<close>\<close>

definition isStreamItem :: "json \<Rightarrow> error + bool" where
  "isStreamItem item =
     (case getProp item ''isShort'' of
        Inl e \<Rightarrow> Inl e
      | Inr isShort \<Rightarrow>
          if truthy_json isShort then Inr False
          else (case getProp item ''type'' of
                  Inl e \<Rightarrow> Inl e
                | Inr t \<Rightarrow> Inr (t = Some (JStr ''stream''))))"

fun filterItems :: "('a \<Rightarrow> error + bool) \<Rightarrow> 'a list \<Rightarrow> error + 'a list" where
  "filterItems f [] = Inr []"
| "filterItems f (x # xs) =
     (case f x of
        Inl e \<Rightarrow> Inl e
      | Inr keep \<Rightarrow>
          (case filterItems f xs of
             Inl e \<Rightarrow> Inl e
           | Inr ys \<Rightarrow> Inr (if keep then x # ys else ys)))"

text \<open>
  The \<^verbatim>\<open>try\<close> block of \<^verbatim>\<open>searchYouTube\<close>; \<^verbatim>\<open>data.items.filter\<close> is a call of
  \<^verbatim>\<open>undefined\<close> unless the truthy \<^verbatim>\<open>data.items\<close> is an array.
\<close>

definition searchYouTube_try :: "(json \<Rightarrow> error + track) \<Rightarrow> error + response \<Rightarrow> error + track list" where
  "searchYouTube_try mapItem fetched =
     (case fetched of
        Inl e \<Rightarrow> Inl e
      | Inr response \<Rightarrow>
          if \<not> ok response then Inl (Error (''Search API error: '' @ decimal (status response)))
          else (case body_json response of
                  None \<Rightarrow> Inl SyntaxError
                | Some data \<Rightarrow>
                    (case getProp data ''items'' of
                       Inl e \<Rightarrow> Inl e
                     | Inr items \<Rightarrow>
                         if \<not> truthy_json items then Inr []
                         else (case items of
                                 Some (JArr xs) \<Rightarrow>
                                   (case filterItems isStreamItem xs of
                                      Inl e \<Rightarrow> Inl e
                                    | Inr kept \<Rightarrow> mapItems mapItem kept)
                               | _ \<Rightarrow> Inl TypeError))))"

text \<open>\<^verbatim>\<open>catch (error) { console.error(...); throw error; }\<close>\<close>

definition searchYouTube :: "(json \<Rightarrow> error + track) \<Rightarrow> error + response \<Rightarrow> error + track list" where
  "searchYouTube mapItem fetched =
     (case searchYouTube_try mapItem fetched of Inl e \<Rightarrow> Inl e | Inr tracks \<Rightarrow> Inr tracks)"

text \<open>
  An item callback for the examples: it reads the \<^verbatim>\<open>title\<close> of an object and throws on
  anything else.
\<close>

definition titleOnly :: "json \<Rightarrow> error + track" where
  "titleOnly item =
     (case item of
        JObj kvs \<Rightarrow>
          (case map_of kvs ''title'' of
             Some (JStr t) \<Rightarrow>
               Inr \<lparr>track_id = None, track_title = Some t, track_name = Some t, thumbnail = None,
                    channelTitle = None, duration = None, track_url = None, isOfficial = True,
                    track_artists = Some []\<rparr>
           | _ \<Rightarrow> Inl TypeError)
      | _ \<Rightarrow> Inl TypeError)"

text \<open>Responses of a search provider: a server error, a page that is not JSON, an empty list.\<close>

definition serverError :: response where
  "serverError = \<lparr>status = 500, body_json = None\<rparr>"

definition notJson :: response where
  "notJson = \<lparr>status = 200, body_json = None\<rparr>"

definition emptyJioSaavn :: response where
  "emptyJioSaavn = \<lparr>status = 200, body_json = Some (JObj [(''data'', JObj [(''results'', JArr [])])])\<rparr>"

definition emptyYouTube :: response where
  "emptyYouTube = \<lparr>status = 200, body_json = Some (JObj [(''items'', JArr [])])\<rparr>"

definition noItemsYouTube :: response where
  "noItemsYouTube = \<lparr>status = 200, body_json = Some (JObj [(''nextpage'', JNull)])\<rparr>"

section \<open>youtubeService.js: the resolvers\<close>

text \<open>Truthiness of a field that is absent or a string, and its text in a template string.\<close>

definition truthy_str :: "string option \<Rightarrow> bool" where
  "truthy_str v = (case v of None \<Rightarrow> False | Some s \<Rightarrow> s \<noteq> [])"

definition template :: "string option \<Rightarrow> string" where
  "template v = (case v of None \<Rightarrow> ''undefined'' | Some s \<Rightarrow> s)"

text \<open>\<^verbatim>\<open>track.name || track.title\<close>\<close>

definition nameOrTitle :: "track \<Rightarrow> string option" where
  "nameOrTitle track = (if truthy_str (track_name track) then track_name track else track_title track)"

text \<open>
  \<^verbatim>\<open>`${track.name || track.title} ${artistName}`.trim()\<close> with
  \<^verbatim>\<open>artistName = track.artists && track.artists[0] ? track.artists[0].name : ""\<close>.
  An element of \<^verbatim>\<open>track.artists\<close> is an object, which is truthy; the model keeps its
  \<^verbatim>\<open>name\<close>.
\<close>

definition strictQuery :: "track \<Rightarrow> string" where
  "strictQuery track =
     (let artistName = (case track_artists track of
                          Some (a # _) \<Rightarrow> template a
                        | _ \<Rightarrow> [])
      in trim (template (nameOrTitle track) @ '' '' @ artistName))"

text \<open>\<^verbatim>\<open>(track.name || track.title || "").trim()\<close>\<close>

definition looseQuery :: "track \<Rightarrow> string" where
  "looseQuery track =
     trim (if truthy_str (nameOrTitle track) then template (nameOrTitle track) else [])"

text \<open>
  A search client as a resolver calls it (\<^verbatim>\<open>searchJioSaavn\<close>, \<^verbatim>\<open>searchYouTube\<close>):
  from the state of the outside world and a query to the outcome and the next state. The resolvers answer with their result, the
  calls they made in order, and the final state.
\<close>

type_synonym 'w search = "'w \<Rightarrow> string \<Rightarrow> (error + track list) \<times> 'w"

type_synonym search_call = "string \<times> (error + track list)"

text \<open>What \<^verbatim>\<open>results\<close> holds after an attempt: a throwing search leaves it as it was, empty.\<close>

definition resultsOf :: "error + track list \<Rightarrow> track list" where
  "resultsOf outcome = (case outcome of Inl e \<Rightarrow> [] | Inr tracks \<Rightarrow> tracks)"

definition getJioSaavnAudioUrl ::
  "'w search \<Rightarrow> 'w \<Rightarrow> track \<Rightarrow> (error + string option) \<times> search_call list \<times> 'w" where
  "getJioSaavnAudioUrl search w track =
     (if truthy_str (track_url track) then (Inr (track_url track), [], w)
      else
        (let query = strictQuery track;
             (results1, calls1, w1) =
               (if query \<noteq> [] then
                  (let (outcome, w') = search w query
                   in (resultsOf outcome, [(query, outcome)], w'))
                else ([], [], w));
             (results2, calls2, w2) =
               (if results1 = [] then
                  (let retryQuery = looseQuery track in
                   if retryQuery \<noteq> [] then
                     (let (outcome, w') = search w1 retryQuery
                      in (resultsOf outcome, calls1 @ [(retryQuery, outcome)], w'))
                   else (results1, calls1, w1))
                else (results1, calls1, w1))
         in if results2 = [] then (Inl (Error ''Track not found on JioSaavn''), calls2, w2)
            else (Inr (track_url (results2 ! 0)), calls2, w2)))"

text \<open>An attempt yields zero results when it throws or returns the empty array.\<close>

definition yieldedZero :: "search_call \<Rightarrow> bool" where
  "yieldedZero c = (resultsOf (snd c) = [])"

text \<open>
  \<^verbatim>\<open>getYouTubeAudioUrl\<close>. \<^verbatim>\<open>getStreamUrl\<close> is called through the world as well; the
  calls are the search query, if any, and the video id handed to \<^verbatim>\<open>getStreamUrl\<close>.
\<close>

datatype youtube_call = SearchCall string | StreamCall "string option"

text \<open>
  \<^verbatim>\<open>track.artists ? track.artists.map(a => a.name).join(' ') : (track.channelTitle || '')\<close>;
  \<^verbatim>\<open>join\<close> writes an undefined name as the empty string.
\<close>

fun joinNames :: "string option list \<Rightarrow> string" where
  "joinNames [] = []"
| "joinNames [a] = (case a of None \<Rightarrow> [] | Some s \<Rightarrow> s)"
| "joinNames (a # b # rest) = (case a of None \<Rightarrow> [] | Some s \<Rightarrow> s) @ '' '' @ joinNames (b # rest)"

definition searchQuery :: "track \<Rightarrow> string" where
  "searchQuery track =
     (let artistNames = (case track_artists track of
                           Some artists \<Rightarrow> joinNames artists
                         | None \<Rightarrow> (if truthy_str (channelTitle track) then template (channelTitle track) else []))
      in template (nameOrTitle track) @ '' '' @ artistNames)"

text \<open>\<^verbatim>\<open>!videoId || videoId.length !== 11\<close>\<close>

definition needsSearch :: "string option \<Rightarrow> bool" where
  "needsSearch videoId = (case videoId of None \<Rightarrow> True | Some v \<Rightarrow> v = [] \<or> length v \<noteq> 11)"

definition getYouTubeAudioUrl ::
  "'w search \<Rightarrow> ('w \<Rightarrow> string option \<Rightarrow> (error + string) \<times> 'w) \<Rightarrow> 'w \<Rightarrow> track
     \<Rightarrow> (error + string option) \<times> youtube_call list \<times> 'w" where
  "getYouTubeAudioUrl search getStreamUrl w track =
     (if truthy_str (track_url track) then (Inr (track_url track), [], w)
      else if needsSearch (track_id track) then
        (let (outcome, w1) = search w (searchQuery track) in
         case outcome of
           Inl e \<Rightarrow> (Inl e, [SearchCall (searchQuery track)], w1)
         | Inr searchResults \<Rightarrow>
             if searchResults = [] then
               (Inl (Error ''No matching videos found on YouTube''), [SearchCall (searchQuery track)], w1)
             else
               (let videoId = track_id (searchResults ! 0);
                    (audioUrl, w2) = getStreamUrl w1 videoId
                in (map_sum id Some audioUrl, [SearchCall (searchQuery track), StreamCall videoId], w2)))
      else
        (let (audioUrl, w1) = getStreamUrl w (track_id track)
         in (map_sum id Some audioUrl, [StreamCall (track_id track)], w1)))"

text \<open>
  A search result as a candidate of the matcher: its name, the names of its artists, its
  id and its url.
\<close>

definition asCandidate :: "track \<Rightarrow> song" where
  "asCandidate t =
     \<lparr>song_id = (case track_id t of None \<Rightarrow> [] | Some i \<Rightarrow> i),
      song_name = (case track_name t of None \<Rightarrow> [] | Some n \<Rightarrow> n),
      song_duration = (case duration t of None \<Rightarrow> 0 | Some d \<Rightarrow> d),
      album_name = [],
      artists_primary =
        map (\<lambda>a. \<lparr>artist_name = (case a of None \<Rightarrow> [] | Some n \<Rightarrow> n), artist_id = []\<rparr>)
          (case track_artists t of None \<Rightarrow> [] | Some as \<Rightarrow> as),
      artists_all = [],
      downloadUrl = (case track_url t of None \<Rightarrow> [] | Some u \<Rightarrow> u),
      image = (case thumbnail t of None \<Rightarrow> [] | Some i \<Rightarrow> i)\<rparr>"

text \<open>
  Two search results for "Blinding Lights": the provider lists another song first and
  the song asked for second.
\<close>

definition otherSong :: track where
  "otherSong = \<lparr>track_id = Some ''aaaaaaaaaaa'', track_title = Some ''Save Your Tears'',
     track_name = Some ''Save Your Tears'', thumbnail = None, channelTitle = Some ''The Weeknd'',
     duration = Some 215, track_url = Some ''https://cdn.example/save-your-tears.mp4'',
     isOfficial = True, track_artists = Some [Some ''The Weeknd'']\<rparr>"

definition wantedSong :: track where
  "wantedSong = \<lparr>track_id = Some ''bbbbbbbbbbb'', track_title = Some ''Blinding Lights'',
     track_name = Some ''Blinding Lights'', thumbnail = None, channelTitle = Some ''The Weeknd'',
     duration = Some 200, track_url = Some ''https://cdn.example/blinding-lights.mp4'',
     isOfficial = True, track_artists = Some [Some ''The Weeknd'']\<rparr>"

text \<open>The track asked for, without a url and without a video id.\<close>

definition requestedTrack :: track where
  "requestedTrack = \<lparr>track_id = Some ''spotify:1'', track_title = None,
     track_name = Some ''Blinding Lights'', thumbnail = None, channelTitle = None,
     duration = None, track_url = None, isOfficial = False,
     track_artists = Some [Some ''The Weeknd'']\<rparr>"

text \<open>
  Tracks without a usable title: \<^verbatim>\<open>{id: "q"}\<close>, \<^verbatim>\<open>{name: " ", artists: [{name: "Adele"}]}\<close>
  and \<^verbatim>\<open>{name: " "}\<close>.
\<close>

definition untitledTrack :: track where
  "untitledTrack = \<lparr>track_id = Some ''q'', track_title = None, track_name = None,
     thumbnail = None, channelTitle = None, duration = None, track_url = None,
     isOfficial = False, track_artists = None\<rparr>"

definition blankTrackAdele :: track where
  "blankTrackAdele = untitledTrack\<lparr>track_name := Some '' '', track_artists := Some [Some ''Adele'']\<rparr>"

definition blankTrack :: track where
  "blankTrack = untitledTrack\<lparr>track_name := Some '' ''\<rparr>"

text \<open>A world without state whose search answers every query with the two results.\<close>

definition twoResults :: "unit search" where
  "twoResults w query = (Inr [otherSong, wantedSong], w)"

text \<open>A world whose search finds nothing, and one whose search fails.\<close>

definition noResults :: "unit search" where
  "noResults w query = (Inr [], w)"

definition streamOf :: "unit \<Rightarrow> string option \<Rightarrow> (error + string) \<times> unit" where
  "streamOf w videoId = (Inr (''https://yt.omada.cafe/videoplayback?id='' @ template videoId), w)"

text \<open>The same request with an 11-character video id.\<close>

definition nativeTrack :: track where
  "nativeTrack = requestedTrack\<lparr>track_id := Some ''dQw4w9WgXcQ''\<rparr>"

section \<open>server.cjs: the /proxy handler\<close>

text \<open>
  \<^verbatim>\<open>encodeURIComponent\<close> (ECMA-262, 19.2.6): the unreserved characters
  \<^verbatim>\<open>A-Z a-z 0-9 - _ . ! ~ * ' ( )\<close> stay, and every other code unit is written as
  the escapes of its UTF-8 octets, one octet below U+0080 and two from U+0080 to U+00FF,
  with upper-case hexadecimal digits.
\<close>

definition isUnreserved :: "char \<Rightarrow> bool" where
  "isUnreserved c = (let n = (of_char c :: nat) in
     isWordChar c \<or> n = 33 \<or> n = 39 \<or> n = 40 \<or> n = 41 \<or> n = 42 \<or> n = 45 \<or> n = 46 \<or> n = 126)"

definition hexDigit :: "nat \<Rightarrow> char" where
  "hexDigit d = (if d < 10 then char_of (48 + d) else char_of (55 + d))"

definition escape :: "nat \<Rightarrow> string" where
  "escape octet = [CHR ''%'', hexDigit (octet div 16), hexDigit (octet mod 16)]"

definition utf8 :: "nat \<Rightarrow> nat list" where
  "utf8 n = (if n < 128 then [n] else [192 + n div 64, 128 + n mod 64])"

definition encodeChar :: "char \<Rightarrow> string" where
  "encodeChar c = (if isUnreserved c then [c] else concat (map escape (utf8 (of_char c))))"

definition encodeURIComponent :: "string \<Rightarrow> string" where
  "encodeURIComponent s = concat (map encodeChar s)"

text \<open>
  \<^verbatim>\<open>decodeURIComponent\<close> (ECMA-262, 19.2.3): a code unit other than \<^verbatim>\<open>%\<close> stays; an
  escape needs two hexadecimal digits of either case; an octet below 0x80 is its code
  unit; the lead octets 0xC2 and 0xC3 take one continuation escape (0x80 to 0xBF) and
  give a code unit from U+0080 to U+00FF; every other octet from 0x80 to 0xC1 and from
  0xF5 is malformed. The lead octets 0xC4 to 0xF4 begin the sequences of the code points
  from U+0100: JavaScript answers with that code point, or with a \<^verbatim>\<open>URIError\<close> when
  the sequence is malformed, and the model answers \<open>BeyondLatin1\<close> without reading on.
\<close>

definition escapedOctet :: "string \<Rightarrow> nat option" where
  "escapedOctet s =
     (case s of
        p # h1 # h2 # _ \<Rightarrow>
          (if p = CHR ''%'' then
             (case (digitValue h1, digitValue h2) of
                (Some a, Some b) \<Rightarrow> Some (16 * a + b)
              | _ \<Rightarrow> None)
           else None)
      | _ \<Rightarrow> None)"

function decodeURIComponent :: "string \<Rightarrow> error + string" where
  "decodeURIComponent [] = Inr []"
| "decodeURIComponent (c # cs) =
     (if c \<noteq> CHR ''%'' then map_sum id ((#) c) (decodeURIComponent cs)
      else (case escapedOctet (c # cs) of
              None \<Rightarrow> Inl URIError
            | Some B \<Rightarrow>
                if B < 128 then map_sum id ((#) (char_of B)) (decodeURIComponent (drop 2 cs))
                else if B = 194 \<or> B = 195 then
                  (case escapedOctet (drop 2 cs) of
                     None \<Rightarrow> Inl URIError
                   | Some C \<Rightarrow>
                       if 128 \<le> C \<and> C < 192 then
                         map_sum id ((#) (char_of ((B - 192) * 64 + (C - 128))))
                           (decodeURIComponent (drop 5 cs))
                       else Inl URIError)
                else if 196 \<le> B \<and> B \<le> 244 then Inl BeyondLatin1
                else Inl URIError))"
  by pat_completeness auto
termination
  by (relation "measure length") auto

declare decodeURIComponent.simps [simp del]

text \<open>\<^verbatim>\<open>s.includes(t)\<close> and \<^verbatim>\<open>s.endsWith(t)\<close>.\<close>

fun includes_str :: "string \<Rightarrow> string \<Rightarrow> bool" where
  "includes_str [] t = (t = [])"
| "includes_str (c # cs) t = (startsWith (c # cs) t \<or> includes_str cs t)"

definition endsWith :: "string \<Rightarrow> string \<Rightarrow> bool" where
  "endsWith s t = (length t \<le> length s \<and> drop (length s - length t) s = t)"

text \<open>\<^verbatim>\<open>const baseProxyUrl = `http://localhost:${port}/proxy?url=`;\<close> with port 3001.\<close>

definition baseProxyUrl :: string where
  "baseProxyUrl = ''http://localhost:3001/proxy?url=''"

text \<open>
  The match of \<^verbatim>\<open>/(https?:\/\/[^\s]+)/\<close> at the start of a text: \<^verbatim>\<open>http\<close>, an
  optional \<^verbatim>\<open>s\<close>, \<^verbatim>\<open>://\<close>, and the longest run of code units that are not
  whitespace, which must not be empty. After \<^verbatim>\<open>http\<close> the text goes on with
  \<^verbatim>\<open>s\<close> or with \<^verbatim>\<open>:\<close>, so at most one of the two readings of \<^verbatim>\<open>s?\<close> matches.
\<close>

definition matchUrl :: "string \<Rightarrow> string option" where
  "matchUrl text =
     (let scheme = (if take 8 text = ''https://'' then ''https://''
                    else if take 7 text = ''http://'' then ''http://'' else []);
          rest = takeWhile (\<lambda>c. \<not> isWhiteSpace c) (drop (length scheme) text)
      in if scheme \<noteq> [] \<and> rest \<noteq> [] then Some (scheme @ rest) else None)"

text \<open>
  \<^verbatim>\<open>playlistText.replace(/(https?:\/\/[^\s]+)/g, (match) =>
    `${baseProxyUrl}${encodeURIComponent(match)}`)\<close>: the text is read from the left; a
  match is replaced and the reading goes on behind it, any other code unit is copied.
\<close>

function rewritePlaylist :: "string \<Rightarrow> string" where
  "rewritePlaylist [] = []"
| "rewritePlaylist (c # cs) =
     (case matchUrl (c # cs) of
        Some m \<Rightarrow> baseProxyUrl @ encodeURIComponent m @ rewritePlaylist (drop (length m) (c # cs))
      | None \<Rightarrow> c # rewritePlaylist cs)"
  by pat_completeness auto
termination
  by (relation "measure length") (auto simp: matchUrl_def Let_def split: if_splits)

declare rewritePlaylist.simps [simp del]

text \<open>
  A token that looks like an absolute url: \<^verbatim>\<open>http://\<close> or \<^verbatim>\<open>https://\<close>, at least one
  more code unit, and no whitespace.
\<close>

definition absoluteUrlToken :: "string \<Rightarrow> bool" where
  "absoluteUrlToken tok =
     ((startsWith tok ''https://'' \<and> 8 < length tok \<or> startsWith tok ''http://'' \<and> 7 < length tok)
      \<and> list_all (\<lambda>c. \<not> isWhiteSpace c) tok)"

text \<open>
  The upstream response of \<^verbatim>\<open>fetch\<close> (the package \<^verbatim>\<open>node-fetch\<close>, whose
  \<^verbatim>\<open>response.body\<close> is a readable stream of the platform). \<^verbatim>\<open>headers.get(name)\<close>
  does not tell the case of a header name apart; the list holds each header once, and a
  header that is not there reads as \<^verbatim>\<open>null\<close>. \<open>up_body\<close> is the body of the
  response, \<^term>\<open>None\<close> when reading it fails; \<open>up_partial\<close> is then the part of the
  body that arrives before the failure, and has no meaning otherwise.
\<close>

record upstream =
  up_status :: nat
  up_statusText :: string
  up_headers :: "(string \<times> string) list"
  up_body :: "string option"
  up_partial :: string

definition up_ok :: "upstream \<Rightarrow> bool" where
  "up_ok r = (200 \<le> up_status r \<and> up_status r \<le> 299)"

definition headers_get :: "upstream \<Rightarrow> string \<Rightarrow> string option" where
  "headers_get r name = map_of (map (\<lambda>(k, v). (toLowerCase k, v)) (up_headers r)) (toLowerCase name)"

text \<open>
  The request: \<^verbatim>\<open>req.query.url\<close>, absent or a string, and \<^verbatim>\<open>req.headers.range\<close>.
  A query in which \<^verbatim>\<open>url\<close> is repeated or nested, which the query parser reads as
  an array or an object, is not covered.
\<close>

record request =
  req_url :: "string option"
  req_range :: "string option"

text \<open>
  What the handler does with \<^verbatim>\<open>res\<close>: the status it sets (200 unless set), the headers
  it sets with \<^verbatim>\<open>res.setHeader\<close>, and how it ends the response:

    \<^item> \<open>Sent t\<close>: it hands the text \<open>t\<close> to \<^verbatim>\<open>res.send\<close>. The framework, which is
      not part of this code, completes the response by itself: it sets Content-Length
      from the text, adds a charset to Content-Type, adds an entity tag, and answers a
      conditional request with 304 in place of a success status. The record holds the
      status and the headers as they are when \<^verbatim>\<open>res.send\<close> is called.
    \<^item> \<open>Piped bytes\<close>: the upstream body went through \<^verbatim>\<open>response.body.pipe(res)\<close>
      to its end. The status and the headers go out as the handler set them, with the
      first chunk.
    \<^item> \<open>Cut bytes\<close>: the upstream body failed after \<open>bytes\<close> had gone through the pipe,
      and the listener \<^verbatim>\<open>() => res.status(500).end()\<close> ended the response.
\<close>

datatype body = Sent string | Piped string | Cut string

record reply =
  res_status :: nat
  res_headers :: "(string \<times> string) list"
  res_body :: body

text \<open>\<^verbatim>\<open>if (response.headers.get(name)) res.setHeader(name, response.headers.get(name));\<close>\<close>

definition copyHeader :: "upstream \<Rightarrow> string \<Rightarrow> (string \<times> string) list" where
  "copyHeader response name =
     (if truthy_str (headers_get response name)
      then [(name, template (headers_get response name))] else [])"

text \<open>\<^verbatim>\<open>response.headers.get('Content-Type') || 'application/vnd.apple.mpegurl'\<close>\<close>

definition contentTypeOf :: "upstream \<Rightarrow> string" where
  "contentTypeOf response =
     (if truthy_str (headers_get response ''Content-Type'')
      then template (headers_get response ''Content-Type'')
      else ''application/vnd.apple.mpegurl'')"

text \<open>\<^verbatim>\<open>req.headers.range ? { 'Range': req.headers.range } : {}\<close>\<close>

definition forwardedHeaders :: "request \<Rightarrow> (string \<times> string) list" where
  "forwardedHeaders req =
     (if truthy_str (req_range req) then [(''Range'', template (req_range req))] else [])"

text \<open>
  A status code that the platform writes: \<^verbatim>\<open>res.status(code).send(...)\<close> throws a
  \<^verbatim>\<open>RangeError\<close> for any other.
\<close>

definition validStatus :: "nat \<Rightarrow> bool" where
  "validStatus code = (100 \<le> code \<and> code \<le> 999)"

text \<open>
  \<^verbatim>\<open>response.body.pipe(res); response.body.on('error', () => res.status(500).end())\<close>
  after the handler has set \<open>statusCode\<close> and \<open>hdrs\<close>. The head of the response goes out
  with the first chunk that comes through the pipe, or at the end of an empty body. A
  failure of the body before its first chunk finds the head not yet sent, and the
  listener's status 500 goes out; after a chunk the head has gone out, and the listener
  only ends the response.
\<close>

definition pipeBody :: "upstream \<Rightarrow> nat \<Rightarrow> (string \<times> string) list \<Rightarrow> reply" where
  "pipeBody response statusCode hdrs =
     (case up_body response of
        Some bytes \<Rightarrow> \<lparr>res_status = statusCode, res_headers = hdrs, res_body = Piped bytes\<rparr>
      | None \<Rightarrow>
          if up_partial response = [] then
            \<lparr>res_status = 500, res_headers = hdrs, res_body = Cut []\<rparr>
          else \<lparr>res_status = statusCode, res_headers = hdrs, res_body = Cut (up_partial response)\<rparr>)"

text \<open>
  The handler. \<open>fetch\<close> takes the url and the request headers and answers with the
  upstream response, or fails; a failure of \<open>fetch\<close>, of \<^verbatim>\<open>res.status(...).send(...)\<close>
  or of reading the text is caught and answered with status 500, the headers set until
  then staying set.
\<close>

definition proxy :: "(string \<Rightarrow> (string \<times> string) list \<Rightarrow> error + upstream) \<Rightarrow> request \<Rightarrow> reply" where
  "proxy fetch req =
     (if \<not> truthy_str (req_url req) then
        \<lparr>res_status = 400, res_headers = [], res_body = Sent ''Missing url''\<rparr>
      else
        (let url = template (req_url req);
             headers = forwardedHeaders req
         in case fetch url headers of
              Inl e \<Rightarrow> \<lparr>res_status = 500, res_headers = [], res_body = Sent ''Proxy failed''\<rparr>
            | Inr response \<Rightarrow>
                if \<not> up_ok response then
                  (if validStatus (up_status response) then
                     \<lparr>res_status = up_status response, res_headers = [],
                      res_body = Sent (up_statusText response)\<rparr>
                   else \<lparr>res_status = 500, res_headers = [], res_body = Sent ''Proxy failed''\<rparr>)
                else
                  (let contentType = contentTypeOf response;
                       hdrs = [(''Content-Type'', contentType), (''Access-Control-Allow-Origin'', ''*'')]
                             @ copyHeader response ''Content-Length''
                             @ copyHeader response ''Content-Range'';
                       statusCode = (if truthy_str (req_range req) then 206 else 200)
                   in if includes_str contentType ''mpegurl'' \<or> endsWith url ''.m3u8'' then
                        (case up_body response of
                           None \<Rightarrow> \<lparr>res_status = 500, res_headers = hdrs, res_body = Sent ''Proxy failed''\<rparr>
                         | Some playlistText \<Rightarrow>
                             \<lparr>res_status = statusCode, res_headers = hdrs,
                              res_body = Sent (rewritePlaylist playlistText)\<rparr>)
                      else pipeBody response statusCode hdrs)))"









text \<open>A playlist of one segment, served without a content type under a \<^verbatim>\<open>.m3u8\<close> name.\<close>

definition playlistHead :: string where
  "playlistHead = ''#EXTM3U'' @ [CHR 0x0A] @ ''#EXTINF:10,'' @ [CHR 0x0A]"

definition segmentUrl :: string where
  "segmentUrl = ''https://host/seg1.ts''"

definition playlist :: upstream where
  "playlist = \<lparr>up_status = 200, up_statusText = ''OK'', up_headers = [],
     up_body = Some (playlistHead @ segmentUrl @ [CHR 0x0A]), up_partial = []\<rparr>"

definition playlistServer :: "string \<Rightarrow> (string \<times> string) list \<Rightarrow> error + upstream" where
  "playlistServer url headers = Inr playlist"

definition playlistRequest :: request where
  "playlistRequest = \<lparr>req_url = Some ''https://host/live/index.m3u8'', req_range = None\<rparr>"

section \<open>Properties of the text matcher\<close>

lemma startsWith_prefix: "startsWith a b = prefix b a"
  unfolding startsWith_def
  by (metis append_eq_conv_conj prefix_def prefix_length_le take_is_prefix)

lemma toLowerCase_char_idem: "toLowerCase_char (toLowerCase_char c) = toLowerCase_char c"
  unfolding toLowerCase_char_def Let_def by auto

lemma set_trim: "set (trim s) \<subseteq> set s"
  unfolding trim_def
  by (metis set_dropWhileD set_rev subsetI)

lemma dropWhile_same_length: "length (dropWhile P xs) = length xs \<Longrightarrow> dropWhile P xs = xs"
  by (metis append_self_conv2 length_0_conv length_append add_cancel_left_left
      takeWhile_dropWhile_id)

lemma dropWhile_fixed: "(dropWhile isWhiteSpace s = s) = (\<not> startsWithWhiteSpace s)"
  unfolding dropWhile_eq_self_iff by (cases s) (simp_all add: startsWithWhiteSpace_def)

lemma trim_fixed: "(trim s = s) = (\<not> startsWithWhiteSpace s \<and> \<not> endsWithWhiteSpace s)"
proof
  assume eq: "trim s = s"
  have "length s = length (dropWhile isWhiteSpace (rev (dropWhile isWhiteSpace s)))"
    using eq unfolding trim_def by (metis length_rev)
  moreover have "length (dropWhile isWhiteSpace (rev (dropWhile isWhiteSpace s)))
      \<le> length (dropWhile isWhiteSpace s)"
    by (metis length_dropWhile_le length_rev)
  moreover have "length (dropWhile isWhiteSpace s) \<le> length s"
    by (rule length_dropWhile_le)
  ultimately have "length (dropWhile isWhiteSpace s) = length s" by linarith
  then have front: "dropWhile isWhiteSpace s = s" by (rule dropWhile_same_length)
  with eq have "dropWhile isWhiteSpace (rev s) = rev s"
    unfolding trim_def by (metis rev_rev_ident)
  with front show "\<not> startsWithWhiteSpace s \<and> \<not> endsWithWhiteSpace s"
    by (simp add: dropWhile_fixed endsWithWhiteSpace_def)
next
  assume "\<not> startsWithWhiteSpace s \<and> \<not> endsWithWhiteSpace s"
  then have "dropWhile isWhiteSpace s = s" and "dropWhile isWhiteSpace (rev s) = rev s"
    by (simp_all add: dropWhile_fixed endsWithWhiteSpace_def)
  then show "trim s = s" by (simp add: trim_def)
qed

lemma normalize_twice: "normalize (normalize x) = trim (normalize x)"
proof -
  let ?keep = "\<lambda>c. isWordChar c \<or> isWhiteSpace c"
  have "\<forall>c \<in> set (normalize x). ?keep c \<and> toLowerCase_char c = c"
    by (auto simp: normalize_def toLowerCase_def toLowerCase_char_idem)
  then have t: "\<forall>c \<in> set (trim (normalize x)). ?keep c \<and> toLowerCase_char c = c"
    using set_trim by blast
  have "toLowerCase (trim (normalize x)) = trim (normalize x)"
    unfolding toLowerCase_def using t by (simp add: map_idI)
  moreover have "filter ?keep (trim (normalize x)) = trim (normalize x)"
    using t by (simp add: filter_id_conv)
  ultimately show ?thesis
    by (simp add: normalize_def[of "normalize x"])
qed

lemma trim_no_leading: "\<not> startsWithWhiteSpace (trim s)"
proof (cases "dropWhile isWhiteSpace s")
  case Nil
  then have "trim s = []" by (simp only: trim_def dropWhile.simps rev.simps)
  then show ?thesis by (simp add: startsWithWhiteSpace_def)
next
  case (Cons y ys)
  then have "\<not> isWhiteSpace y"
    by (metis hd_dropWhile list.distinct(1) list.sel(1))
  then have "dropWhile isWhiteSpace (rev ys @ [y]) = dropWhile isWhiteSpace (rev ys) @ [y]"
    by (simp add: dropWhile_append3)
  with Cons \<open>\<not> isWhiteSpace y\<close> show ?thesis
    by (simp add: trim_def startsWithWhiteSpace_def)
qed

lemma trim_no_trailing: "\<not> endsWithWhiteSpace (trim s)"
  unfolding endsWithWhiteSpace_def trim_def rev_rev_ident
  by (metis dropWhile_fixed dropWhile_idem)

lemma trim_trim: "trim (trim s) = trim s"
  by (simp add: trim_fixed trim_no_leading trim_no_trailing)

lemma findMatchingTrack_loop_find:
  "findMatchingTrack_loop cs t a =
     find (\<lambda>c. namesOverlap (song_name c) t \<and>
               (a = [] \<or> (\<exists>x \<in> set (artists_primary c @ artists_all c).
                             namesOverlap (artist_name x) a))) cs"
  by (induction cs)
    (auto simp: titleMatches_def artistMatches_def namesOverlap_def startsEither_def
       allArtists_def list_ex_iff)

lemma title_find:
  "find (\<lambda>t. startsEither (normalize title) (normalize (song_name t))) cs =
   find (\<lambda>c. namesOverlap (song_name c) title) cs"
  by (rule arg_cong[where f = "\<lambda>p. find p cs"]) (auto simp: namesOverlap_def startsEither_def)

text \<open>
  Claim C1. \<^verbatim>\<open>_findMatchingTrack\<close> is the two-tier selection of the specification:
  in the order of the list, the first candidate whose title overlaps the title query and
  whose primary or other artists overlap the artist query (any candidate's artists do when
  the artist query is empty); failing that the first candidate whose title overlaps;
  failing that the first candidate; and nothing for the empty list. For the candidates
  "Blinding Lights" by The Weeknd and "Blinding Lights (Remix)" by DJ X, the title query
  "Blinding Lights" and the artist query "Weeknd", the result is the first candidate; it
  is chosen by its title, since "weeknd" is no prefix of "the weeknd" and the loop finds
  no candidate.
\<close>

theorem findMatchingTrack_two_tier:
  "findMatchingTrack candidates title artist = selectBestCandidate_spec candidates title artist
   \<and> findMatchingTrack [blindingLights, blindingLightsRemix] ''Blinding Lights'' ''Weeknd''
       = Some blindingLights
   \<and> findMatchingTrack_loop [blindingLights, blindingLightsRemix] ''Blinding Lights'' ''Weeknd''
       = None"
proof -
  have "findMatchingTrack candidates title artist = selectBestCandidate_spec candidates title artist"
    unfolding findMatchingTrack_def selectBestCandidate_spec_def
      findMatchingTrack_loop_find title_find
    by (cases candidates) (auto split: option.splits)
  moreover have "findMatchingTrack [blindingLights, blindingLightsRemix] ''Blinding Lights'' ''Weeknd''
       = Some blindingLights"
    by code_simp
  moreover have "findMatchingTrack_loop [blindingLights, blindingLightsRemix] ''Blinding Lights'' ''Weeknd''
       = None"
    by code_simp
  ultimately show ?thesis by simp
qed

text \<open>
  Claim C8, as stated, at its own example: the normalized "weeknd" is a suffix of the
  normalized "the weeknd", not a prefix, and neither \<^verbatim>\<open>startsWith\<close> holds.
\<close>

theorem namesOverlap_weeknd_counterexample:
  "\<not> namesOverlap ''the weeknd'' ''weeknd''"
  by code_simp

text \<open>
  Claim C8, amended. The comparison of two names is true exactly when one normalized name
  is a prefix of the other: "the weeknd" and "the" overlap, "the weeknd" and "weeknd" do
  not, and "abc" and "xyz" do not.
\<close>

theorem namesOverlap_prefix:
  "namesOverlap a b = (prefix (normalize a) (normalize b) \<or> prefix (normalize b) (normalize a))
   \<and> namesOverlap ''the weeknd'' ''the''
   \<and> \<not> namesOverlap ''the weeknd'' ''weeknd''
   \<and> \<not> namesOverlap ''abc'' ''xyz''"
proof -
  have "namesOverlap a b = (prefix (normalize a) (normalize b) \<or> prefix (normalize b) (normalize a))"
    by (auto simp: namesOverlap_def startsEither_def startsWith_prefix)
  moreover have "namesOverlap ''the weeknd'' ''the''" by code_simp
  moreover have "\<not> namesOverlap ''the weeknd'' ''weeknd''" by code_simp
  moreover have "\<not> namesOverlap ''abc'' ''xyz''" by code_simp
  ultimately show ?thesis by blast
qed

text \<open>
  Claim C9, as stated, fails: \<^verbatim>\<open>trim\<close> runs before the punctuation is removed, so
  "Song -" normalizes to "song " with its trailing blank, and a second pass removes it.
\<close>

theorem normalize_idempotent_counterexample:
  "normalize (normalize ''Song -'') \<noteq> normalize ''Song -''"
  by code_simp

text \<open>
  Claim C9, amended. Normalizing a normalized string trims it and changes nothing else;
  so \<^verbatim>\<open>normalize(normalize(x))\<close> equals \<^verbatim>\<open>normalize(x)\<close> exactly when
  \<^verbatim>\<open>normalize(x)\<close> neither starts nor ends with whitespace, and a third pass never
  changes the result of the second.
\<close>

theorem normalize_twice_trim:
  "normalize (normalize x) = trim (normalize x)
   \<and> (normalize (normalize x) = normalize x)
       = (\<not> startsWithWhiteSpace (normalize x) \<and> \<not> endsWithWhiteSpace (normalize x))
   \<and> normalize (normalize (normalize x)) = normalize (normalize x)"
proof -
  have two: "normalize (normalize y) = trim (normalize y)" for y
    by (rule normalize_twice)
  have "normalize (normalize (normalize x)) = trim (normalize (normalize x))"
    by (rule two)
  also have "\<dots> = trim (trim (normalize x))"
    by (simp only: two [of x])
  also have "\<dots> = normalize (normalize x)"
    by (simp only: trim_trim two [of x])
  finally show ?thesis
    by (simp add: two trim_fixed)
qed

section \<open>Properties of the stream selection\<close>

lemma sortCompare_parsed:
  "bitrateOf x = Num bx \<Longrightarrow> bitrateOf y = Num by \<Longrightarrow> sortCompare compareBitrate x y = by - bx"
  by (simp add: sortCompare_def compareBitrate_def)

lemma parsed_modelled:
  assumes "\<forall>v \<in> set xs. \<exists>n. bitrateOf v = Num n"
  shows "modelled compareBitrate xs"
proof -
  have "compareBitrate x y \<noteq> Unmodelled" if "x \<in> set xs" and "y \<in> set xs" for x y
  proof -
    from assms that obtain bx "by" where "bitrateOf x = Num bx" and "bitrateOf y = Num by"
      by blast
    then show ?thesis by (simp add: compareBitrate_def)
  qed
  then show ?thesis
    unfolding modelled_def list_all_iff by blast
qed

lemma parsed_consistent:
  assumes "\<forall>v \<in> set xs. \<exists>n. bitrateOf v = Num n"
  shows "consistent compareBitrate xs"
proof -
  have "sgn (sortCompare compareBitrate x y) = - sgn (sortCompare compareBitrate y x)"
    if "x \<in> set xs" and "y \<in> set xs" for x y
  proof -
    from assms that obtain bx "by" where "bitrateOf x = Num bx" and "bitrateOf y = Num by"
      by blast
    then show ?thesis by (simp add: sortCompare_parsed sgn_if)
  qed
  moreover have "sortCompare compareBitrate x z \<le> 0"
    if "x \<in> set xs" and "y \<in> set xs" and "z \<in> set xs"
      and "sortCompare compareBitrate x y \<le> 0" and "sortCompare compareBitrate y z \<le> 0" for x y z
  proof -
    from assms that(1,2,3) obtain bx "by" bz
      where "bitrateOf x = Num bx" and "bitrateOf y = Num by" and "bitrateOf z = Num bz"
      by blast
    with that(4,5) show ?thesis by (simp add: sortCompare_parsed)
  qed
  ultimately show ?thesis
    unfolding consistent_def list_all_iff by blast
qed

lemma array_sort_parsed:
  assumes "\<forall>v \<in> set xs. \<exists>n. bitrateOf v = Num n"
  shows "array_sort compareBitrate xs = Inr (stable_sort compareBitrate xs)"
  using parsed_modelled[OF assms] parsed_consistent[OF assms] by (simp add: array_sort_def)

lemma sort_insert_insort_key:
  assumes "\<exists>n. bitrateOf x = Num n" and "\<forall>v \<in> set ys. \<exists>n. bitrateOf v = Num n"
  shows "sort_insert compareBitrate x ys = insort_key (\<lambda>v. - bitrate_int v) x ys"
  using assms
  by (induction ys) (auto simp: sortCompare_parsed bitrate_int_def)

lemma set_sort_insert: "set (sort_insert c x ys) = insert x (set ys)"
  by (induction ys) auto

lemma set_stable_sort: "set (stable_sort c xs) = set xs"
  by (induction xs) (auto simp: set_sort_insert)

lemma mset_sort_insert: "mset (sort_insert c x ys) = add_mset x (mset ys)"
  by (induction ys) auto

lemma mset_stable_sort: "mset (stable_sort c xs) = mset xs"
  by (induction xs) (auto simp: mset_sort_insert)

lemma length_stable_sort: "length (stable_sort c xs) = length xs"
  by (metis mset_stable_sort size_mset)

lemma stable_sort_sort_key:
  assumes "\<forall>v \<in> set xs. \<exists>n. bitrateOf v = Num n"
  shows "stable_sort compareBitrate xs = sort_key (\<lambda>v. - bitrate_int v) xs"
  using assms
proof (induction xs)
  case Nil
  then show ?case by simp
next
  case (Cons a xs)
  then have "stable_sort compareBitrate (a # xs)
      = sort_insert compareBitrate a (sort_key (\<lambda>v. - bitrate_int v) xs)"
    by simp
  also have "\<dots> = insort_key (\<lambda>v. - bitrate_int v) a (sort_key (\<lambda>v. - bitrate_int v) xs)"
    using Cons.prems by (intro sort_insert_insort_key) simp_all
  finally show ?case by (simp add: sort_key_simps)
qed

lemma sorted_descending:
  assumes "\<forall>v \<in> set xs. \<exists>n. bitrateOf v = Num n"
  shows "sorted_wrt (\<lambda>a b. bitrate_int b \<le> bitrate_int a) (stable_sort compareBitrate xs)"
proof -
  have "sorted (map (\<lambda>v. - bitrate_int v) (sort_key (\<lambda>v. - bitrate_int v) xs))"
    by (rule sorted_sort_key)
  then show ?thesis
    by (simp add: stable_sort_sort_key[OF assms] sorted_map)
qed

lemma sorted_wrt_first:
  "sorted_wrt (\<lambda>a b. g b \<le> (g a :: int)) ss \<Longrightarrow> v \<in> set ss \<Longrightarrow> g v \<le> g (ss ! 0)"
  by (cases ss) auto

lemma sorted_wrt_last:
  assumes "sorted_wrt (\<lambda>a b. g b \<le> (g a :: int)) ss" and "v \<in> set ss"
  shows "g (ss ! (length ss - 1)) \<le> g v"
proof -
  from assms(2) have ne: "ss \<noteq> []" by auto
  then have split: "ss = butlast ss @ [last ss]" by simp
  with assms(1) have "sorted_wrt (\<lambda>a b. g b \<le> g a) (butlast ss @ [last ss])" by simp
  then have "\<forall>x \<in> set (butlast ss). g (last ss) \<le> g x"
    by (simp add: sorted_wrt_append)
  moreover from assms(2) split have "v \<in> set (butlast ss) \<or> v = last ss"
    by (metis Un_iff empty_iff empty_set insert_iff list.simps(15) set_append)
  ultimately have "g (last ss) \<le> g v" by auto
  with ne show ?thesis by (simp add: last_conv_nth)
qed

lemma selected_from_sorted:
  assumes "audioStreams fmts \<noteq> []" and "array_sort compareBitrate (audioStreams fmts) = Inr s"
  shows "getStreamUrl_selectedStream (Some fmts) quality =
     Inr (if quality = ''high'' then s ! 0
          else if quality = ''low'' then s ! (length s - 1)
          else s ! (length s div 2))"
  using assms by (auto simp: getStreamUrl_selectedStream_def audioStreams_def)

lemma selected_parsed:
  assumes "audioStreams fmts \<noteq> []" and "\<forall>v \<in> set (audioStreams fmts). \<exists>n. bitrateOf v = Num n"
  shows "getStreamUrl_selectedStream (Some fmts) ''high'' = Inr (sortedStreams fmts ! 0)"
    and "getStreamUrl_selectedStream (Some fmts) ''low''
         = Inr (sortedStreams fmts ! (length (audioStreams fmts) - 1))"
    and "getStreamUrl_selectedStream (Some fmts) ''medium''
         = Inr (sortedStreams fmts ! (length (audioStreams fmts) div 2))"
  using selected_from_sorted[OF assms(1) array_sort_parsed[OF assms(2)]]
  by (simp_all add: sortedStreams_def length_stable_sort)

lemma bitrateOf_absent: "fmt_bitrate v = Undefined \<Longrightarrow> bitrateOf v = Num 0"
  by (simp add: bitrateOf_def exact_def exactBound_def)

lemma last_filter_keep: "xs \<noteq> [] \<Longrightarrow> P (last xs) \<Longrightarrow> last (filter P xs) = last xs"
  by (induction xs) (auto simp: filter_empty_conv)

lemma zeros_last:
  assumes "sorted_wrt (\<lambda>a b. g b \<le> (g a :: int)) ss" and "\<forall>v \<in> set ss. 0 \<le> g v"
  shows "ss = filter (\<lambda>v. g v \<noteq> 0) ss @ filter (\<lambda>v. g v = 0) ss"
  using assms
proof (induction ss)
  case Nil
  then show ?case by simp
next
  case (Cons x xs)
  show ?case
  proof (cases "g x = 0")
    case True
    with Cons.prems have "\<forall>y \<in> set xs. g y = 0" by fastforce
    then have "filter (\<lambda>v. g v \<noteq> 0) xs = []" and "filter (\<lambda>v. g v = 0) xs = xs"
      by (simp_all add: filter_empty_conv filter_id_conv)
    with True show ?thesis by simp
  next
    case False
    with Cons show ?thesis by simp
  qed
qed

text \<open>The two variants of which the first has no numeric bitrate stay in place.\<close>

lemma unparseable_sort:
  "audioStreams unparseableFormats = unparseableFormats"
  "array_sort compareBitrate unparseableFormats = Inr unparseableFormats"
  by code_simp+

text \<open>
  Where the development stops: comparisons that are no consistent ordering, whose sorted
  order is the engine's, and numbers beyond the bound.
\<close>

lemma inconsistent_sort:
  "array_sort compareBitrate inconsistentFormats = Inl EngineDefined"
  by code_simp

lemma beyond_bound:
  "parseInt (JString ''9007199254740993'') = Unmodelled"
  "parseInt (JNumber 4503599627370496) = Unmodelled"
  "parseInt (JNumber 4503599627370495) = Num 4503599627370495"
  by code_simp+

lemma parsed_iff:
  "(\<exists>n. bitrateOf v = Num n) = (case bitrateOf v of Num n \<Rightarrow> True | _ \<Rightarrow> False)"
  by (cases "bitrateOf v") simp_all

lemma positive_iff:
  "(\<exists>n. 0 < n \<and> bitrateOf v = Num n) = (case bitrateOf v of Num n \<Rightarrow> 0 < n | _ \<Rightarrow> False)"
  by (cases "bitrateOf v") simp_all

lemma example_parsed:
  "audioStreams exampleVariants \<noteq> []"
  "\<forall>v \<in> set (audioStreams exampleVariants). \<exists>n. bitrateOf v = Num n"
proof -
  show "audioStreams exampleVariants \<noteq> []" by code_simp
  have "list_all (\<lambda>v. case bitrateOf v of Num n \<Rightarrow> True | _ \<Rightarrow> False) (audioStreams exampleVariants)"
    by code_simp
  then show "\<forall>v \<in> set (audioStreams exampleVariants). \<exists>n. bitrateOf v = Num n"
    by (simp add: list_all_iff parsed_iff)
qed

lemma mixed_parsed:
  "audioStreams mixedFormats \<noteq> []"
  "\<forall>v \<in> set (audioStreams mixedFormats). \<exists>n. bitrateOf v = Num n"
proof -
  show "audioStreams mixedFormats \<noteq> []" by code_simp
  have "list_all (\<lambda>v. case bitrateOf v of Num n \<Rightarrow> True | _ \<Rightarrow> False) (audioStreams mixedFormats)"
    by code_simp
  then show "\<forall>v \<in> set (audioStreams mixedFormats). \<exists>n. bitrateOf v = Num n"
    by (simp add: list_all_iff parsed_iff)
qed

text \<open>
  Claim C2, as stated, fails for a list with a bitrate that does not read as a number.
  Of the two audio variants \<^verbatim>\<open>{bitrate: "abc"}\<close> and \<^verbatim>\<open>{bitrate: "128000"}\<close>, the
  first has the bitrate \<^verbatim>\<open>NaN\<close>, every comparison with it is \<^verbatim>\<open>NaN\<close>, the sort
  leaves the two in place, and "high" selects the first, not the variant of the highest
  bitrate, 128000.
\<close>

theorem getStreamUrl_high_unparseable_counterexample:
  "audioStreams unparseableFormats = unparseableFormats
   \<and> bitrateOf (unparseableFormats ! 0) = NaN
   \<and> bitrateOf (unparseableFormats ! 1) = Num 128000
   \<and> array_sort compareBitrate (audioStreams unparseableFormats) = Inr unparseableFormats
   \<and> getStreamUrl_selectedStream (Some unparseableFormats) ''high''
       = Inr (audioFormat (JString ''abc'') ''u1'')"
proof -
  have ne: "audioStreams unparseableFormats \<noteq> []" by code_simp
  have sorted: "array_sort compareBitrate (audioStreams unparseableFormats) = Inr unparseableFormats"
    by (simp only: unparseable_sort)
  have "bitrateOf (unparseableFormats ! 0) = NaN" by code_simp
  moreover have "bitrateOf (unparseableFormats ! 1) = Num 128000" by code_simp
  moreover have "unparseableFormats ! 0 = audioFormat (JString ''abc'') ''u1''" by code_simp
  ultimately show ?thesis
    using selected_from_sorted[OF ne sorted, of "''high''"] sorted unparseable_sort(1)
    by simp
qed

text \<open>
  Claim C2, amended. For every list of adaptive formats with an audio variant in which
  the bitrate of every audio variant, a falsy field counting as 0, reads as an integer
  below \<open>2^52\<close> in magnitude: the sort gives the audio variants in descending order of
  bitrate, variants of equal bitrate in their original order; "high" selects index 0 of
  the sorted array, a variant of the highest bitrate; "low" selects its last index, a
  variant of the lowest bitrate; "medium" selects index floor(length / 2). For the
  bitrates 320, 256, 128, 64 the three selections are 320, 64 and the variant at
  index 2, 128.
\<close>

theorem getStreamUrl_quality_selection:
  "(audioStreams fmts \<noteq> [] \<and> (\<forall>v \<in> set (audioStreams fmts). \<exists>n. bitrateOf v = Num n) \<longrightarrow>
       array_sort compareBitrate (audioStreams fmts) = Inr (sortedStreams fmts)
     \<and> mset (sortedStreams fmts) = mset (audioStreams fmts)
     \<and> sorted_wrt (\<lambda>a b. bitrate_int b \<le> bitrate_int a) (sortedStreams fmts)
     \<and> (\<forall>k. filter (\<lambda>v. bitrate_int v = k) (sortedStreams fmts)
             = filter (\<lambda>v. bitrate_int v = k) (audioStreams fmts))
     \<and> getStreamUrl_selectedStream (Some fmts) ''high'' = Inr (sortedStreams fmts ! 0)
     \<and> getStreamUrl_selectedStream (Some fmts) ''low''
         = Inr (sortedStreams fmts ! (length (audioStreams fmts) - 1))
     \<and> getStreamUrl_selectedStream (Some fmts) ''medium''
         = Inr (sortedStreams fmts ! (length (audioStreams fmts) div 2))
     \<and> (\<forall>v \<in> set (audioStreams fmts). bitrate_int v \<le> bitrate_int (sortedStreams fmts ! 0))
     \<and> (\<forall>v \<in> set (audioStreams fmts).
           bitrate_int (sortedStreams fmts ! (length (audioStreams fmts) - 1)) \<le> bitrate_int v))
   \<and> getStreamUrl_selectedStream (Some exampleVariants) ''high''
       = Inr (audioFormat (JNumber 320) ''u320'')
   \<and> getStreamUrl_selectedStream (Some exampleVariants) ''low''
       = Inr (audioFormat (JNumber 64) ''u64'')
   \<and> getStreamUrl_selectedStream (Some exampleVariants) ''medium'' = Inr (exampleVariants ! 2)
   \<and> exampleVariants ! 2 = audioFormat (JNumber 128) ''u128''"
proof -
  have general: "array_sort compareBitrate (audioStreams fmts) = Inr (sortedStreams fmts)
     \<and> mset (sortedStreams fmts) = mset (audioStreams fmts)
     \<and> sorted_wrt (\<lambda>a b. bitrate_int b \<le> bitrate_int a) (sortedStreams fmts)
     \<and> (\<forall>k. filter (\<lambda>v. bitrate_int v = k) (sortedStreams fmts)
             = filter (\<lambda>v. bitrate_int v = k) (audioStreams fmts))
     \<and> getStreamUrl_selectedStream (Some fmts) ''high'' = Inr (sortedStreams fmts ! 0)
     \<and> getStreamUrl_selectedStream (Some fmts) ''low''
         = Inr (sortedStreams fmts ! (length (audioStreams fmts) - 1))
     \<and> getStreamUrl_selectedStream (Some fmts) ''medium''
         = Inr (sortedStreams fmts ! (length (audioStreams fmts) div 2))
     \<and> (\<forall>v \<in> set (audioStreams fmts). bitrate_int v \<le> bitrate_int (sortedStreams fmts ! 0))
     \<and> (\<forall>v \<in> set (audioStreams fmts).
           bitrate_int (sortedStreams fmts ! (length (audioStreams fmts) - 1)) \<le> bitrate_int v)"
    if ne: "audioStreams fmts \<noteq> []"
      and parsed: "\<forall>v \<in> set (audioStreams fmts). \<exists>n. bitrateOf v = Num n"
  proof -
    have len: "length (sortedStreams fmts) = length (audioStreams fmts)"
      by (simp add: sortedStreams_def length_stable_sort)
    have elems: "set (sortedStreams fmts) = set (audioStreams fmts)"
      by (simp add: sortedStreams_def set_stable_sort)
    have c1: "array_sort compareBitrate (audioStreams fmts) = Inr (sortedStreams fmts)"
      unfolding sortedStreams_def using parsed by (rule array_sort_parsed)
    have c2: "mset (sortedStreams fmts) = mset (audioStreams fmts)"
      by (simp add: sortedStreams_def mset_stable_sort)
    have desc: "sorted_wrt (\<lambda>a b. bitrate_int b \<le> bitrate_int a) (sortedStreams fmts)"
      unfolding sortedStreams_def using parsed by (rule sorted_descending)
    have key: "sortedStreams fmts = sort_key (\<lambda>v. - bitrate_int v) (audioStreams fmts)"
      unfolding sortedStreams_def using parsed by (rule stable_sort_sort_key)
    have stable: "filter (\<lambda>v. bitrate_int v = k) (sortedStreams fmts)
             = filter (\<lambda>v. bitrate_int v = k) (audioStreams fmts)" for k
      using sort_key_stable[of "\<lambda>v. - bitrate_int v" "- k" "audioStreams fmts"] key by simp
    have top: "\<forall>v \<in> set (audioStreams fmts). bitrate_int v \<le> bitrate_int (sortedStreams fmts ! 0)"
      using sorted_wrt_first[OF desc] elems by blast
    have bottom: "\<forall>v \<in> set (audioStreams fmts).
        bitrate_int (sortedStreams fmts ! (length (audioStreams fmts) - 1)) \<le> bitrate_int v"
      using sorted_wrt_last[OF desc] elems len by metis
    from c1 c2 desc stable top bottom selected_parsed[OF ne parsed] show ?thesis
      by simp
  qed
  have first: "sortedStreams exampleVariants ! 0 = audioFormat (JNumber 320) ''u320''"
    by code_simp
  have final: "sortedStreams exampleVariants ! (length (audioStreams exampleVariants) - 1)
      = audioFormat (JNumber 64) ''u64''"
    by code_simp
  have middle: "sortedStreams exampleVariants ! (length (audioStreams exampleVariants) div 2)
      = exampleVariants ! 2"
    by code_simp
  have third: "exampleVariants ! 2 = audioFormat (JNumber 128) ''u128''"
    by code_simp
  have example: "getStreamUrl_selectedStream (Some exampleVariants) ''high''
       = Inr (audioFormat (JNumber 320) ''u320'')
   \<and> getStreamUrl_selectedStream (Some exampleVariants) ''low''
       = Inr (audioFormat (JNumber 64) ''u64'')
   \<and> getStreamUrl_selectedStream (Some exampleVariants) ''medium'' = Inr (exampleVariants ! 2)
   \<and> exampleVariants ! 2 = audioFormat (JNumber 128) ''u128''"
    using selected_parsed[OF example_parsed]
    by (simp only: first final middle third simp_thms)
  from general example show ?thesis by (intro conjI impI) simp_all
qed

theorem getStreamUrl_quality_selection_witness:
  "audioStreams mixedFormats \<noteq> []
   \<and> list_all (\<lambda>v. case bitrateOf v of Num n \<Rightarrow> True | _ \<Rightarrow> False) (audioStreams mixedFormats)
   \<and> array_sort compareBitrate (audioStreams mixedFormats)
       = Inr [audioFormat (JString ''320000'') ''a4'', audioFormat (JString ''128000'') ''a1'',
              audioFormat (JNumber 64000) ''a3'', audioFormat Undefined ''a2'']
   \<and> getStreamUrl_selectedStream (Some mixedFormats) ''high''
       = Inr (audioFormat (JString ''320000'') ''a4'')
   \<and> getStreamUrl_selectedStream (Some mixedFormats) ''low'' = Inr (audioFormat Undefined ''a2'')
   \<and> getStreamUrl_selectedStream (Some mixedFormats) ''medium''
       = Inr (audioFormat (JNumber 64000) ''a3'')"
proof -
  note ne = mixed_parsed(1) and parsed = mixed_parsed(2)
  have order: "sortedStreams mixedFormats
      = [audioFormat (JString ''320000'') ''a4'', audioFormat (JString ''128000'') ''a1'',
         audioFormat (JNumber 64000) ''a3'', audioFormat Undefined ''a2'']"
    by code_simp
  have len: "length (audioStreams mixedFormats) = 4" by code_simp
  from getStreamUrl_quality_selection [of mixedFormats] ne parsed
  have "array_sort compareBitrate (audioStreams mixedFormats) = Inr (sortedStreams mixedFormats)"
    and "getStreamUrl_selectedStream (Some mixedFormats) ''high'' = Inr (sortedStreams mixedFormats ! 0)"
    and "getStreamUrl_selectedStream (Some mixedFormats) ''low''
         = Inr (sortedStreams mixedFormats ! (length (audioStreams mixedFormats) - 1))"
    and "getStreamUrl_selectedStream (Some mixedFormats) ''medium''
         = Inr (sortedStreams mixedFormats ! (length (audioStreams mixedFormats) div 2))"
    by simp_all
  with ne parsed show ?thesis
    by (simp add: order len list_all_iff parsed_iff)
qed

text \<open>
  Claim C10, as stated, fails for a bitrate that does not read as a number: \<^verbatim>\<open>"abc"\<close>
  is truthy, \<^verbatim>\<open>parseInt\<close> gives \<^verbatim>\<open>NaN\<close>, and the comparison of that variant with
  one of bitrate 128000 is \<^verbatim>\<open>NaN\<close> in both directions, where a bitrate of 0 would
  give 128000 and -128000. The sort leaves the two variants in place, and "low" selects
  the variant of bitrate 128000.
\<close>

theorem getStreamUrl_unparseable_bitrate_counterexample:
  "fmt_bitrate (unparseableFormats ! 0) = JString ''abc''
   \<and> bitrateOf (unparseableFormats ! 0) = NaN
   \<and> bitrateOf (unparseableFormats ! 1) = Num 128000
   \<and> compareBitrate (unparseableFormats ! 0) (unparseableFormats ! 1) = NaN
   \<and> compareBitrate (unparseableFormats ! 1) (unparseableFormats ! 0) = NaN
   \<and> compareBitrate ((unparseableFormats ! 0)\<lparr>fmt_bitrate := JNumber 0\<rparr>) (unparseableFormats ! 1)
       = Num 128000
   \<and> compareBitrate (unparseableFormats ! 1) ((unparseableFormats ! 0)\<lparr>fmt_bitrate := JNumber 0\<rparr>)
       = Num (- 128000)
   \<and> getStreamUrl_selectedStream (Some unparseableFormats) ''low''
       = Inr (audioFormat (JString ''128000'') ''u2'')"
proof -
  have ne: "audioStreams unparseableFormats \<noteq> []" by code_simp
  have sorted: "array_sort compareBitrate (audioStreams unparseableFormats) = Inr unparseableFormats"
    by (simp only: unparseable_sort)
  have final: "unparseableFormats ! (length unparseableFormats - 1)
      = audioFormat (JString ''128000'') ''u2''"
    by code_simp
  have low: "getStreamUrl_selectedStream (Some unparseableFormats) ''low''
       = Inr (audioFormat (JString ''128000'') ''u2'')"
    using selected_from_sorted[OF ne sorted, of "''low''"] final by simp
  have "fmt_bitrate (unparseableFormats ! 0) = JString ''abc''" by code_simp
  moreover have "bitrateOf (unparseableFormats ! 0) = NaN" by code_simp
  moreover have "bitrateOf (unparseableFormats ! 1) = Num 128000" by code_simp
  moreover have "compareBitrate (unparseableFormats ! 0) (unparseableFormats ! 1) = NaN"
    by code_simp
  moreover have "compareBitrate (unparseableFormats ! 1) (unparseableFormats ! 0) = NaN"
    by code_simp
  moreover have "compareBitrate ((unparseableFormats ! 0)\<lparr>fmt_bitrate := JNumber 0\<rparr>)
      (unparseableFormats ! 1) = Num 128000"
    by code_simp
  moreover have "compareBitrate (unparseableFormats ! 1)
      ((unparseableFormats ! 0)\<lparr>fmt_bitrate := JNumber 0\<rparr>) = Num (- 128000)"
    by code_simp
  ultimately show ?thesis using low by (intro conjI)
qed

text \<open>
  Claim C10, amended. An audio variant whose bitrate field is absent is compared as if
  its bitrate were 0. When the audio variants hold such a variant and the bitrate of
  every other one reads as a positive integer below \<open>2^52\<close>, the sorted order ends with
  the variants of absent bitrate, in their original order, and "low" selects the last of
  them.
\<close>

theorem getStreamUrl_absent_bitrate_last:
  "bitrateOf (a\<lparr>fmt_bitrate := Undefined\<rparr>) = Num 0
   \<and> compareBitrate (a\<lparr>fmt_bitrate := Undefined\<rparr>) b
       = compareBitrate (a\<lparr>fmt_bitrate := JNumber 0\<rparr>) b
   \<and> compareBitrate b (a\<lparr>fmt_bitrate := Undefined\<rparr>)
       = compareBitrate b (a\<lparr>fmt_bitrate := JNumber 0\<rparr>)
   \<and> ((\<exists>v \<in> set (audioStreams fmts). fmt_bitrate v = Undefined)
        \<and> (\<forall>v \<in> set (audioStreams fmts).
              fmt_bitrate v = Undefined \<or> (\<exists>n. 0 < n \<and> bitrateOf v = Num n)) \<longrightarrow>
          array_sort compareBitrate (audioStreams fmts) = Inr (sortedStreams fmts)
        \<and> sortedStreams fmts
            = filter (\<lambda>v. fmt_bitrate v \<noteq> Undefined) (sortedStreams fmts)
              @ filter (\<lambda>v. fmt_bitrate v = Undefined) (audioStreams fmts)
        \<and> getStreamUrl_selectedStream (Some fmts) ''low''
            = Inr (last (filter (\<lambda>v. fmt_bitrate v = Undefined) (audioStreams fmts))))"
proof -
  let ?absent = "\<lambda>v. fmt_bitrate v = Undefined"
  let ?f = "\<lambda>v. - bitrate_int v"
  have tail: "array_sort compareBitrate (audioStreams fmts) = Inr (sortedStreams fmts)
        \<and> sortedStreams fmts
            = filter (\<lambda>v. \<not> ?absent v) (sortedStreams fmts) @ filter ?absent (audioStreams fmts)
        \<and> getStreamUrl_selectedStream (Some fmts) ''low''
            = Inr (last (filter ?absent (audioStreams fmts)))"
    if some: "\<exists>v \<in> set (audioStreams fmts). ?absent v"
      and rest: "\<forall>v \<in> set (audioStreams fmts). ?absent v \<or> (\<exists>n. 0 < n \<and> bitrateOf v = Num n)"
  proof -
    let ?as = "audioStreams fmts" and ?ss = "sortedStreams fmts"
    have ne: "?as \<noteq> []" using some by auto
    have parsed: "\<forall>v \<in> set ?as. \<exists>n. bitrateOf v = Num n"
      using rest bitrateOf_absent by fastforce
    have zero: "?absent v = (bitrate_int v = 0)" if "v \<in> set ?as" for v
      using rest that bitrateOf_absent[of v] by (auto simp: bitrate_int_def)
    have nonneg: "\<forall>v \<in> set ?as. 0 \<le> bitrate_int v"
      using rest bitrateOf_absent by (fastforce simp: bitrate_int_def)
    have sorted: "array_sort compareBitrate ?as = Inr ?ss"
      unfolding sortedStreams_def using parsed by (rule array_sort_parsed)
    have key: "?ss = sort_key ?f ?as"
      unfolding sortedStreams_def using parsed by (rule stable_sort_sort_key)
    have elems: "set ?ss = set ?as"
      by (simp add: sortedStreams_def set_stable_sort)
    have desc: "sorted_wrt (\<lambda>a b. bitrate_int b \<le> bitrate_int a) ?ss"
      unfolding sortedStreams_def using parsed by (rule sorted_descending)
    have stable: "filter (\<lambda>v. bitrate_int v = 0) ?ss = filter (\<lambda>v. bitrate_int v = 0) ?as"
      using sort_key_stable[of ?f 0 ?as] key by simp
    have f1: "filter (\<lambda>v. bitrate_int v = 0) ?as = filter ?absent ?as"
      by (rule filter_cong) (simp_all add: zero)
    have f2: "filter (\<lambda>v. bitrate_int v \<noteq> 0) ?ss = filter (\<lambda>v. \<not> ?absent v) ?ss"
      by (rule filter_cong) (simp_all add: zero elems)
    have split: "?ss = filter (\<lambda>v. \<not> ?absent v) ?ss @ filter ?absent ?as"
      using zeros_last[OF desc] nonneg elems stable f1 f2 by simp
    have tail_ne: "filter ?absent ?as \<noteq> []"
      using some by (simp add: filter_empty_conv)
    have "last ?ss = last (filter ?absent ?as)"
      using split tail_ne by (metis last_appendR)
    moreover have "?ss \<noteq> []" using elems ne by auto
    moreover have "length ?ss = length ?as"
      by (simp add: sortedStreams_def length_stable_sort)
    ultimately have "getStreamUrl_selectedStream (Some fmts) ''low'' = Inr (last (filter ?absent ?as))"
      using selected_parsed(2)[OF ne parsed] by (simp add: last_conv_nth)
    with split sorted show ?thesis by simp
  qed
  have "bitrateOf (a\<lparr>fmt_bitrate := Undefined\<rparr>) = Num 0"
    by (simp add: bitrateOf_def exact_def exactBound_def)
  moreover have "compareBitrate (a\<lparr>fmt_bitrate := Undefined\<rparr>) b
       = compareBitrate (a\<lparr>fmt_bitrate := JNumber 0\<rparr>) b"
    by (simp add: compareBitrate_def bitrateOf_def)
  moreover have "compareBitrate b (a\<lparr>fmt_bitrate := Undefined\<rparr>)
       = compareBitrate b (a\<lparr>fmt_bitrate := JNumber 0\<rparr>)"
    by (simp add: compareBitrate_def bitrateOf_def)
  ultimately show ?thesis using tail by (intro conjI impI) simp_all
qed

theorem getStreamUrl_absent_bitrate_last_witness:
  "(\<exists>v \<in> set (audioStreams mixedFormats). fmt_bitrate v = Undefined)
   \<and> list_all (\<lambda>v. fmt_bitrate v = Undefined \<or> (case bitrateOf v of Num n \<Rightarrow> 0 < n | _ \<Rightarrow> False))
        (audioStreams mixedFormats)
   \<and> getStreamUrl_selectedStream (Some mixedFormats) ''low'' = Inr (audioFormat Undefined ''a2'')"
proof -
  have some: "\<exists>v \<in> set (audioStreams mixedFormats). fmt_bitrate v = Undefined"
    by code_simp
  have all: "list_all (\<lambda>v. fmt_bitrate v = Undefined \<or> (case bitrateOf v of Num n \<Rightarrow> 0 < n | _ \<Rightarrow> False))
        (audioStreams mixedFormats)"
    by code_simp
  then have rest: "\<forall>v \<in> set (audioStreams mixedFormats).
      fmt_bitrate v = Undefined \<or> (\<exists>n. 0 < n \<and> bitrateOf v = Num n)"
    by (simp add: list_all_iff positive_iff)
  have final: "last (filter (\<lambda>v. fmt_bitrate v = Undefined) (audioStreams mixedFormats))
      = audioFormat Undefined ''a2''"
    by code_simp
  from getStreamUrl_absent_bitrate_last [of _ _ mixedFormats] some rest
  have "getStreamUrl_selectedStream (Some mixedFormats) ''low''
      = Inr (last (filter (\<lambda>v. fmt_bitrate v = Undefined) (audioStreams mixedFormats)))"
    by simp
  with some all final show ?thesis
    by simp
qed

section \<open>Properties of the search clients and the resolvers\<close>

lemma trim_empty: "(trim s = []) = (\<forall>c \<in> set s. isWhiteSpace c)"
proof
  assume "trim s = []"
  then have "dropWhile isWhiteSpace (rev (dropWhile isWhiteSpace s)) = []"
    by (simp add: trim_def)
  then have "\<forall>c \<in> set (dropWhile isWhiteSpace s). isWhiteSpace c"
    by (simp add: dropWhile_eq_Nil_conv)
  then have "dropWhile isWhiteSpace s = []"
    by (metis hd_dropWhile hd_in_set)
  then show "\<forall>c \<in> set s. isWhiteSpace c"
    by (simp add: dropWhile_eq_Nil_conv)
next
  assume "\<forall>c \<in> set s. isWhiteSpace c"
  then have "dropWhile isWhiteSpace s = []"
    by (simp add: dropWhile_eq_Nil_conv)
  then show "trim s = []" by (simp only: trim_def rev.simps dropWhile.simps)
qed

lemma loose_strict: "looseQuery track \<noteq> [] \<Longrightarrow> strictQuery track \<noteq> []"
  by (auto simp: looseQuery_def strictQuery_def trim_empty Let_def split: if_splits)

lemma getJioSaavnAudioUrl_cases:
  assumes "\<not> truthy_str (track_url track)"
  shows "getJioSaavnAudioUrl search w track =
     (let o1 = fst (search w (strictQuery track)); w1 = snd (search w (strictQuery track));
          o2 = fst (search w1 (looseQuery track)); w2 = snd (search w1 (looseQuery track))
      in if strictQuery track = [] then (Inl (Error ''Track not found on JioSaavn''), [], w)
         else if resultsOf o1 \<noteq> [] then
           (Inr (track_url (resultsOf o1 ! 0)), [(strictQuery track, o1)], w1)
         else if looseQuery track = [] then
           (Inl (Error ''Track not found on JioSaavn''), [(strictQuery track, o1)], w1)
         else if resultsOf o2 \<noteq> [] then
           (Inr (track_url (resultsOf o2 ! 0)),
            [(strictQuery track, o1), (looseQuery track, o2)], w2)
         else (Inl (Error ''Track not found on JioSaavn''),
               [(strictQuery track, o1), (looseQuery track, o2)], w2))"
  using assms loose_strict[of track]
  unfolding getJioSaavnAudioUrl_def Let_def
  by (auto split: prod.splits if_splits)

text \<open>
  Claim C3, as stated, fails for a track without a usable title, because the resolver
  skips an attempt whose trimmed query is empty. With a search that finds nothing,
  \<^verbatim>\<open>{id: "q"}\<close> fails with "Track not found" after the single search for
  \<^verbatim>\<open>"undefined"\<close>; \<^verbatim>\<open>{name: " ", artists: [{name: "Adele"}]}\<close> fails after the
  single search for \<^verbatim>\<open>"Adele"\<close>, which holds no title; and \<^verbatim>\<open>{name: " "}\<close> fails
  without any search. In none of the three runs has a loosened attempt been made.
\<close>

theorem getJioSaavnAudioUrl_single_attempt_counterexample:
  "\<not> truthy_str (track_url untitledTrack)
   \<and> getJioSaavnAudioUrl noResults () untitledTrack
       = (Inl (Error ''Track not found on JioSaavn''), [(''undefined'', Inr [])], ())
   \<and> \<not> truthy_str (track_url blankTrackAdele)
   \<and> getJioSaavnAudioUrl noResults () blankTrackAdele
       = (Inl (Error ''Track not found on JioSaavn''), [(''Adele'', Inr [])], ())
   \<and> \<not> truthy_str (track_url blankTrack)
   \<and> getJioSaavnAudioUrl noResults () blankTrack
       = (Inl (Error ''Track not found on JioSaavn''), [], ())"
  by code_simp

text \<open>
  Claim C3, amended. For a track without a direct url, \<^verbatim>\<open>getJioSaavnAudioUrl\<close>
  searches at most twice. Its first search, made exactly when the joined query is not
  blank, is for the title (name) and the first artist joined. A second search is made
  only after the first yielded zero results and only when the title is not blank, and it
  is for the title alone. The resolver fails only with "Track not found", and only when
  every search it made yielded zero results; for a track whose title is not blank that is
  after both the strict and the loosened search. It succeeds only after a search that
  yielded a result.
\<close>

theorem getJioSaavnAudioUrl_two_attempts:
  "\<not> truthy_str (track_url track) \<longrightarrow>
    (case getJioSaavnAudioUrl search w track of (result, calls, w') \<Rightarrow>
       length calls \<le> 2
     \<and> (strictQuery track \<noteq> [] \<longrightarrow>
          calls \<noteq> [] \<and> calls ! 0 = (strictQuery track, fst (search w (strictQuery track))))
     \<and> (length calls = 2 \<longrightarrow>
          yieldedZero (calls ! 0)
          \<and> calls ! 1 = (looseQuery track,
                fst (search (snd (search w (strictQuery track))) (looseQuery track))))
     \<and> ((\<exists>e. result = Inl e) \<longrightarrow>
          result = Inl (Error ''Track not found on JioSaavn'') \<and> list_all yieldedZero calls)
     \<and> (looseQuery track \<noteq> [] \<and> (\<exists>e. result = Inl e) \<longrightarrow> length calls = 2)
     \<and> ((\<exists>u. result = Inr u) \<longrightarrow> calls \<noteq> [] \<and> \<not> yieldedZero (last calls))
     \<and> (strictQuery track = [] \<longrightarrow> calls = [])
     \<and> (looseQuery track = [] \<longrightarrow> length calls \<le> 1))"
proof
  assume nourl: "\<not> truthy_str (track_url track)"
  show "case getJioSaavnAudioUrl search w track of (result, calls, w') \<Rightarrow>
       length calls \<le> 2
     \<and> (strictQuery track \<noteq> [] \<longrightarrow>
          calls \<noteq> [] \<and> calls ! 0 = (strictQuery track, fst (search w (strictQuery track))))
     \<and> (length calls = 2 \<longrightarrow>
          yieldedZero (calls ! 0)
          \<and> calls ! 1 = (looseQuery track,
                fst (search (snd (search w (strictQuery track))) (looseQuery track))))
     \<and> ((\<exists>e. result = Inl e) \<longrightarrow>
          result = Inl (Error ''Track not found on JioSaavn'') \<and> list_all yieldedZero calls)
     \<and> (looseQuery track \<noteq> [] \<and> (\<exists>e. result = Inl e) \<longrightarrow> length calls = 2)
     \<and> ((\<exists>u. result = Inr u) \<longrightarrow> calls \<noteq> [] \<and> \<not> yieldedZero (last calls))
     \<and> (strictQuery track = [] \<longrightarrow> calls = [])
     \<and> (looseQuery track = [] \<longrightarrow> length calls \<le> 1)"
    unfolding getJioSaavnAudioUrl_cases[OF nourl] Let_def
    using loose_strict[of track]
    by (auto simp add: yieldedZero_def)
qed

theorem getJioSaavnAudioUrl_two_attempts_witness:
  "\<not> truthy_str (track_url requestedTrack)
   \<and> looseQuery requestedTrack = ''Blinding Lights''
   \<and> strictQuery requestedTrack = ''Blinding Lights The Weeknd''
   \<and> fst (getJioSaavnAudioUrl noResults () requestedTrack)
       = Inl (Error ''Track not found on JioSaavn'')
   \<and> length (fst (snd (getJioSaavnAudioUrl noResults () requestedTrack))) = 2
   \<and> list_all yieldedZero (fst (snd (getJioSaavnAudioUrl noResults () requestedTrack)))"
proof -
  have nourl: "\<not> truthy_str (track_url requestedTrack)" by code_simp
  have loose: "looseQuery requestedTrack = ''Blinding Lights''" by code_simp
  have strict: "strictQuery requestedTrack = ''Blinding Lights The Weeknd''" by code_simp
  have failed: "fst (getJioSaavnAudioUrl noResults () requestedTrack)
       = Inl (Error ''Track not found on JioSaavn'')"
    by code_simp
  obtain result calls w' where
    run: "getJioSaavnAudioUrl noResults () requestedTrack = (result, calls, w')"
    by (metis prod_cases3)
  with failed have "\<exists>e. result = Inl e" by simp
  with getJioSaavnAudioUrl_two_attempts [of requestedTrack noResults "()"] nourl loose run
  have "length calls = 2" and "list_all yieldedZero calls"
    by auto
  with nourl loose strict failed run show ?thesis by simp
qed

text \<open>
  Claim C6, as stated, fails for \<^verbatim>\<open>searchYouTube\<close>: its \<^verbatim>\<open>catch\<close> logs the error and
  throws it again, so a rejected \<^verbatim>\<open>fetch\<close> and a response of status 500 reach the
  caller as errors.
\<close>

theorem searchYouTube_rethrows_counterexample:
  "searchYouTube titleOnly (Inl FetchError) = Inl FetchError
   \<and> searchYouTube titleOnly (Inr serverError) = Inl (Error ''Search API error: 500'')
   \<and> searchYouTube titleOnly (Inr notJson) = Inl SyntaxError"
  by code_simp

text \<open>
  Claim C6, amended. \<^verbatim>\<open>searchJioSaavn\<close> never fails: a rejected \<^verbatim>\<open>fetch\<close>, a
  non-success status, a body that is not JSON and an empty result list all give the empty
  array. \<^verbatim>\<open>searchYouTube\<close> gives the empty array when the response has no items or
  an empty list of items, and throws again what a rejected \<^verbatim>\<open>fetch\<close>, a non-success
  status or a body that is not JSON raised.
\<close>

theorem search_clients_failures:
  "(\<exists>tracks. searchJioSaavn mapItem fetched = Inr tracks)
   \<and> searchJioSaavn mapItem (Inl e) = Inr []
   \<and> (\<not> ok r1 \<longrightarrow> searchJioSaavn mapItem (Inr r1) = Inr [])
   \<and> (body_json r2 = None \<longrightarrow> searchJioSaavn mapItem (Inr r2) = Inr [])
   \<and> (ok r3 \<and> body_json r3 = Some data \<and> jioSaavn_results data = Inr (Some (JArr []))
        \<longrightarrow> searchJioSaavn mapItem (Inr r3) = Inr [])
   \<and> searchYouTube mapItem (Inl e) = Inl e
   \<and> (\<not> ok r1 \<longrightarrow>
        searchYouTube mapItem (Inr r1) = Inl (Error (''Search API error: '' @ decimal (status r1))))
   \<and> (ok r2 \<and> body_json r2 = None \<longrightarrow> searchYouTube mapItem (Inr r2) = Inl SyntaxError)
   \<and> (ok r4 \<and> body_json r4 = Some (JObj members) \<and> \<not> truthy_json (map_of members ''items'')
        \<longrightarrow> searchYouTube mapItem (Inr r4) = Inr [])
   \<and> (ok r5 \<and> body_json r5 = Some (JObj members5) \<and> map_of members5 ''items'' = Some (JArr [])
        \<longrightarrow> searchYouTube mapItem (Inr r5) = Inr [])"
proof -
  have "\<exists>tracks. searchJioSaavn mapItem fetched = Inr tracks"
    by (simp add: searchJioSaavn_def split: sum.splits)
  moreover have "searchJioSaavn mapItem (Inl e) = Inr []"
    by (simp add: searchJioSaavn_def searchJioSaavn_try_def)
  moreover have "\<not> ok r1 \<longrightarrow> searchJioSaavn mapItem (Inr r1) = Inr []"
    by (simp add: searchJioSaavn_def searchJioSaavn_try_def)
  moreover have "body_json r2 = None \<longrightarrow> searchJioSaavn mapItem (Inr r2) = Inr []"
    by (simp add: searchJioSaavn_def searchJioSaavn_try_def)
  moreover have "ok r3 \<and> body_json r3 = Some data \<and> jioSaavn_results data = Inr (Some (JArr []))
        \<longrightarrow> searchJioSaavn mapItem (Inr r3) = Inr []"
    by (simp add: searchJioSaavn_def searchJioSaavn_try_def)
  moreover have "searchYouTube mapItem (Inl e) = Inl e"
    by (simp add: searchYouTube_def searchYouTube_try_def)
  moreover have "\<not> ok r1 \<longrightarrow>
        searchYouTube mapItem (Inr r1) = Inl (Error (''Search API error: '' @ decimal (status r1)))"
    by (simp add: searchYouTube_def searchYouTube_try_def)
  moreover have "ok r2 \<and> body_json r2 = None \<longrightarrow> searchYouTube mapItem (Inr r2) = Inl SyntaxError"
    by (simp add: searchYouTube_def searchYouTube_try_def)
  moreover have "ok r4 \<and> body_json r4 = Some (JObj members) \<and> \<not> truthy_json (map_of members ''items'')
        \<longrightarrow> searchYouTube mapItem (Inr r4) = Inr []"
    by (simp add: searchYouTube_def searchYouTube_try_def)
  moreover have "ok r5 \<and> body_json r5 = Some (JObj members5) \<and> map_of members5 ''items'' = Some (JArr [])
        \<longrightarrow> searchYouTube mapItem (Inr r5) = Inr []"
    by (simp add: searchYouTube_def searchYouTube_try_def)
  ultimately show ?thesis by blast
qed

theorem search_clients_failures_witness:
  "\<not> ok serverError \<and> ok notJson \<and> body_json notJson = None
   \<and> searchJioSaavn titleOnly (Inl FetchError) = Inr []
   \<and> searchJioSaavn titleOnly (Inr serverError) = Inr []
   \<and> searchJioSaavn titleOnly (Inr notJson) = Inr []
   \<and> searchJioSaavn titleOnly (Inr emptyJioSaavn) = Inr []
   \<and> searchYouTube titleOnly (Inr serverError)
       = Inl (Error (''Search API error: '' @ decimal (status serverError)))
   \<and> searchYouTube titleOnly (Inr notJson) = Inl SyntaxError
   \<and> searchYouTube titleOnly (Inr noItemsYouTube) = Inr []
   \<and> searchYouTube titleOnly (Inr emptyYouTube) = Inr []"
proof -
  have h1: "\<not> ok serverError" by code_simp
  have h2: "ok notJson \<and> body_json notJson = None" by code_simp
  have h3: "ok emptyJioSaavn
      \<and> body_json emptyJioSaavn = Some (JObj [(''data'', JObj [(''results'', JArr [])])])
      \<and> jioSaavn_results (JObj [(''data'', JObj [(''results'', JArr [])])]) = Inr (Some (JArr []))"
    by code_simp
  have h4: "ok noItemsYouTube \<and> body_json noItemsYouTube = Some (JObj [(''nextpage'', JNull)])
      \<and> \<not> truthy_json (map_of [(''nextpage'', JNull)] ''items'')"
    by code_simp
  have h5: "ok emptyYouTube \<and> body_json emptyYouTube = Some (JObj [(''items'', JArr [])])
      \<and> map_of [(''items'', JArr [])] ''items'' = Some (JArr [])"
    by code_simp
  from search_clients_failures [of titleOnly "Inl FetchError" FetchError serverError notJson
      emptyJioSaavn "JObj [(''data'', JObj [(''results'', JArr [])])]"
      noItemsYouTube "[(''nextpage'', JNull)]" emptyYouTube "[(''items'', JArr [])]"]
    h1 h2 h3 h4 h5
  show ?thesis by simp
qed

lemma needsSearch_native: "needsSearch (Some i) = (length i \<noteq> 11)"
  by (auto simp: needsSearch_def)

text \<open>
  Claim C7, as stated, fails on the metadata-search path: the provider lists another
  song before "Blinding Lights"; the matcher would choose the second result, and both
  resolvers take the first, its url on the JioSaavn path and its id on the YouTube path.
\<close>

theorem resolver_takes_first_counterexample:
  "findMatchingTrack (map asCandidate [otherSong, wantedSong]) ''Blinding Lights'' ''The Weeknd''
     = Some (asCandidate wantedSong)
   \<and> fst (getJioSaavnAudioUrl twoResults () requestedTrack) = Inr (track_url otherSong)
   \<and> track_url otherSong \<noteq> track_url wantedSong
   \<and> fst (snd (getYouTubeAudioUrl twoResults streamOf () requestedTrack))
       = [SearchCall ''Blinding Lights The Weeknd'', StreamCall (track_id otherSong)]
   \<and> track_id otherSong \<noteq> track_id wantedSong"
  by code_simp

text \<open>
  Claim C7, amended. On the metadata-search path a resolver takes the first result of
  the search, without ranking: \<^verbatim>\<open>getJioSaavnAudioUrl\<close> answers the url of the first
  result of its last search, and \<^verbatim>\<open>getYouTubeAudioUrl\<close> hands the id of the first
  result to \<^verbatim>\<open>getStreamUrl\<close>. On the native-id path, an id of 11 characters, the id
  goes to \<^verbatim>\<open>getStreamUrl\<close> directly and no search is made.
\<close>

theorem resolvers_take_first_result:
  "(\<not> truthy_str (track_url t1) \<and> fst (getJioSaavnAudioUrl search w t1) = Inr u \<longrightarrow>
      (case getJioSaavnAudioUrl search w t1 of (result, calls, w') \<Rightarrow>
         calls \<noteq> [] \<and> resultsOf (snd (last calls)) \<noteq> []
         \<and> u = track_url (resultsOf (snd (last calls)) ! 0)))
   \<and> (\<not> truthy_str (track_url t2) \<and> needsSearch (track_id t2)
       \<and> search w (searchQuery t2) = (Inr results, w1) \<and> results \<noteq> [] \<longrightarrow>
         getYouTubeAudioUrl search getStreamUrl w t2
           = (map_sum id Some (fst (getStreamUrl w1 (track_id (results ! 0)))),
              [SearchCall (searchQuery t2), StreamCall (track_id (results ! 0))],
              snd (getStreamUrl w1 (track_id (results ! 0)))))
   \<and> (\<not> truthy_str (track_url t3) \<and> track_id t3 = Some i \<and> length i = 11 \<longrightarrow>
         getYouTubeAudioUrl search getStreamUrl w t3
           = (map_sum id Some (fst (getStreamUrl w (Some i))), [StreamCall (Some i)],
              snd (getStreamUrl w (Some i))))"
proof -
  have first: "case getJioSaavnAudioUrl search w t1 of (result, calls, w') \<Rightarrow>
         calls \<noteq> [] \<and> resultsOf (snd (last calls)) \<noteq> []
         \<and> u = track_url (resultsOf (snd (last calls)) ! 0)"
    if nourl: "\<not> truthy_str (track_url t1)"
      and res: "fst (getJioSaavnAudioUrl search w t1) = Inr u"
    using res unfolding getJioSaavnAudioUrl_cases[OF nourl] Let_def
    by (auto split: if_splits)
  then have jio: "\<not> truthy_str (track_url t1) \<and> fst (getJioSaavnAudioUrl search w t1) = Inr u \<longrightarrow>
      (case getJioSaavnAudioUrl search w t1 of (result, calls, w') \<Rightarrow>
         calls \<noteq> [] \<and> resultsOf (snd (last calls)) \<noteq> []
         \<and> u = track_url (resultsOf (snd (last calls)) ! 0))"
    by simp
  have searched: "\<not> truthy_str (track_url t2) \<and> needsSearch (track_id t2)
       \<and> search w (searchQuery t2) = (Inr results, w1) \<and> results \<noteq> [] \<longrightarrow>
         getYouTubeAudioUrl search getStreamUrl w t2
           = (map_sum id Some (fst (getStreamUrl w1 (track_id (results ! 0)))),
              [SearchCall (searchQuery t2), StreamCall (track_id (results ! 0))],
              snd (getStreamUrl w1 (track_id (results ! 0))))"
    by (simp add: getYouTubeAudioUrl_def Let_def split: prod.splits)
  have native: "\<not> truthy_str (track_url t3) \<and> track_id t3 = Some i \<and> length i = 11 \<longrightarrow>
         getYouTubeAudioUrl search getStreamUrl w t3
           = (map_sum id Some (fst (getStreamUrl w (Some i))), [StreamCall (Some i)],
              snd (getStreamUrl w (Some i)))"
    by (simp add: getYouTubeAudioUrl_def Let_def needsSearch_native split: prod.splits)
  show ?thesis
    by (intro conjI) (rule jio, rule searched, rule native)
qed

theorem resolvers_take_first_result_witness:
  "\<not> truthy_str (track_url requestedTrack) \<and> needsSearch (track_id requestedTrack)
   \<and> fst (getJioSaavnAudioUrl twoResults () requestedTrack) = Inr (track_url otherSong)
   \<and> getYouTubeAudioUrl twoResults streamOf () requestedTrack
       = (Inr (Some ''https://yt.omada.cafe/videoplayback?id=aaaaaaaaaaa''),
          [SearchCall ''Blinding Lights The Weeknd'', StreamCall (Some ''aaaaaaaaaaa'')], ())
   \<and> getYouTubeAudioUrl twoResults streamOf () nativeTrack
       = (Inr (Some ''https://yt.omada.cafe/videoplayback?id=dQw4w9WgXcQ''),
          [StreamCall (Some ''dQw4w9WgXcQ'')], ())"
proof -
  have nourl: "\<not> truthy_str (track_url requestedTrack)" by code_simp
  have needs: "needsSearch (track_id requestedTrack)" by code_simp
  have jio: "fst (getJioSaavnAudioUrl twoResults () requestedTrack) = Inr (track_url otherSong)"
    by code_simp
  have found: "twoResults () (searchQuery requestedTrack) = (Inr [otherSong, wantedSong], ())"
    by (simp add: twoResults_def)
  have query: "searchQuery requestedTrack = ''Blinding Lights The Weeknd''" by code_simp
  have first: "track_id ([otherSong, wantedSong] ! 0) = Some ''aaaaaaaaaaa''" by code_simp
  have stream1: "streamOf () (Some ''aaaaaaaaaaa'')
      = (Inr ''https://yt.omada.cafe/videoplayback?id=aaaaaaaaaaa'', ())"
    by code_simp
  have native: "\<not> truthy_str (track_url nativeTrack) \<and> track_id nativeTrack = Some ''dQw4w9WgXcQ''
      \<and> length ''dQw4w9WgXcQ'' = 11"
    by code_simp
  have stream2: "streamOf () (Some ''dQw4w9WgXcQ'')
      = (Inr ''https://yt.omada.cafe/videoplayback?id=dQw4w9WgXcQ'', ())"
    by code_simp
  from resolvers_take_first_result [of requestedTrack twoResults "()" "track_url otherSong"
      requestedTrack "[otherSong, wantedSong]" "()" streamOf nativeTrack "''dQw4w9WgXcQ''"]
    nourl needs found native
  have "getYouTubeAudioUrl twoResults streamOf () requestedTrack
           = (map_sum id Some (fst (streamOf () (track_id ([otherSong, wantedSong] ! 0)))),
              [SearchCall (searchQuery requestedTrack), StreamCall (track_id ([otherSong, wantedSong] ! 0))],
              snd (streamOf () (track_id ([otherSong, wantedSong] ! 0))))"
    and "getYouTubeAudioUrl twoResults streamOf () nativeTrack
           = (map_sum id Some (fst (streamOf () (Some ''dQw4w9WgXcQ''))),
              [StreamCall (Some ''dQw4w9WgXcQ'')], snd (streamOf () (Some ''dQw4w9WgXcQ'')))"
    by simp_all
  with nourl needs jio query first stream1 stream2 show ?thesis by simp
qed

section \<open>Properties of the proxy\<close>

lemma digitValue_hexDigit: "d < 16 \<Longrightarrow> digitValue (hexDigit d) = Some d"
  by (auto simp: digitValue_def hexDigit_def Let_def)

lemma escapedOctet_escape: "b < 256 \<Longrightarrow> escapedOctet (escape b @ t) = Some b"
  by (simp add: escapedOctet_def escape_def digitValue_hexDigit)


lemma unreserved_not_percent: "isUnreserved c \<Longrightarrow> c \<noteq> CHR ''%''"
  by (auto simp: isUnreserved_def isWordChar_def Let_def)

lemma decode_plain: "c \<noteq> CHR ''%'' \<Longrightarrow>
   decodeURIComponent (c # t) = map_sum id ((#) c) (decodeURIComponent t)"
  by (simp add: decodeURIComponent.simps)

lemma decode_one: "escapedOctet (CHR ''%'' # cs) = Some B \<Longrightarrow> B < 128 \<Longrightarrow>
   decodeURIComponent (CHR ''%'' # cs) = map_sum id ((#) (char_of B)) (decodeURIComponent (drop 2 cs))"
  by (simp add: decodeURIComponent.simps)

lemma decode_two: "escapedOctet (CHR ''%'' # cs) = Some B \<Longrightarrow> B = 194 \<or> B = 195 \<Longrightarrow>
   escapedOctet (drop 2 cs) = Some C \<Longrightarrow> 128 \<le> C \<Longrightarrow> C < 192 \<Longrightarrow>
   decodeURIComponent (CHR ''%'' # cs)
     = map_sum id ((#) (char_of ((B - 192) * 64 + (C - 128)))) (decodeURIComponent (drop 5 cs))"
  by (auto simp add: decodeURIComponent.simps)


lemma lead_octet: "128 \<le> n \<Longrightarrow> n < 256 \<Longrightarrow> 192 + n div 64 = 194 \<or> 192 + n div 64 = (195::nat)"
  by arith

lemma two_octets_value: "128 \<le> n \<Longrightarrow> n < 256 \<Longrightarrow> (192 + n div 64 - 192) * 64 + (128 + n mod 64 - 128) = (n::nat)"
  by simp

lemma decode_encodeChar_ascii:
  assumes "\<not> isUnreserved c" and "(of_char c :: nat) < 128"
  shows "decodeURIComponent (encodeChar c @ t) = map_sum id ((#) c) (decodeURIComponent t)"
proof -
  let ?n = "of_char c :: nat"
  let ?cs = "hexDigit (?n div 16) # hexDigit (?n mod 16) # t"
  have enc: "encodeChar c @ t = CHR ''%'' # ?cs"
    using assms by (simp add: encodeChar_def utf8_def escape_def)
  have "escape ?n @ t = CHR ''%'' # ?cs" by (simp add: escape_def)
  then have oct: "escapedOctet (CHR ''%'' # ?cs) = Some ?n"
    using escapedOctet_escape[of ?n t] by simp
  have "decodeURIComponent (CHR ''%'' # ?cs)
      = map_sum id ((#) (char_of ?n)) (decodeURIComponent (drop 2 ?cs))"
    using oct assms(2) by (rule decode_one)
  moreover have "drop 2 ?cs = t" by simp
  moreover have "char_of ?n = c" by simp
  ultimately show ?thesis by (simp only: enc)
qed

lemma decode_encodeChar_latin1:
  assumes "\<not> isUnreserved c" and "\<not> (of_char c :: nat) < 128"
  shows "decodeURIComponent (encodeChar c @ t) = map_sum id ((#) c) (decodeURIComponent t)"
proof -
  let ?n = "of_char c :: nat"
  let ?b = "192 + ?n div 64" and ?c = "128 + ?n mod 64"
  let ?cs = "hexDigit (?b div 16) # hexDigit (?b mod 16) # escape ?c @ t"
  have n: "128 \<le> ?n" "?n < 256" using assms(2) by simp_all
  have b: "?b = 194 \<or> ?b = 195" using n by (rule lead_octet)
  have enc: "encodeChar c @ t = CHR ''%'' # ?cs"
    using assms by (simp add: encodeChar_def utf8_def escape_def)
  have "escape ?b @ (escape ?c @ t) = CHR ''%'' # ?cs" by (simp add: escape_def)
  moreover have "?b < 256" using b by arith
  ultimately have first: "escapedOctet (CHR ''%'' # ?cs) = Some ?b"
    using escapedOctet_escape[of ?b "escape ?c @ t"] by simp
  have "drop 2 ?cs = escape ?c @ t" by simp
  moreover have "?c < 256" by simp
  ultimately have second: "escapedOctet (drop 2 ?cs) = Some ?c"
    using escapedOctet_escape[of ?c t] by simp
  have val: "(?b - 192) * 64 + (?c - 128) = ?n" using n by (rule two_octets_value)
  have rest: "drop 5 ?cs = t" by (simp add: escape_def)
  have "decodeURIComponent (CHR ''%'' # ?cs)
      = map_sum id ((#) (char_of ((?b - 192) * 64 + (?c - 128)))) (decodeURIComponent (drop 5 ?cs))"
    using first b second by (rule decode_two) simp_all
  moreover have "char_of ?n = c" by simp
  ultimately show ?thesis by (simp only: enc val rest)
qed

lemma decode_encodeChar:
  "decodeURIComponent (encodeChar c @ t) = map_sum id ((#) c) (decodeURIComponent t)"
proof (cases "isUnreserved c")
  case True
  then have "encodeChar c @ t = c # t" by (simp add: encodeChar_def)
  with True show ?thesis
    by (simp only: decode_plain[OF unreserved_not_percent])
next
  case False
  then show ?thesis
    using decode_encodeChar_ascii decode_encodeChar_latin1 by blast
qed

lemma decode_encode: "decodeURIComponent (encodeURIComponent x) = Inr x"
proof (induction x)
  case Nil
  show ?case by (simp add: encodeURIComponent_def decodeURIComponent.simps)
next
  case (Cons c x)
  have "encodeURIComponent (c # x) = encodeChar c @ encodeURIComponent x"
    by (simp add: encodeURIComponent_def)
  then show ?case using Cons by (simp only: decode_encodeChar) simp
qed

lemma take_eq_prefix: "length s = k \<Longrightarrow> (take k t = s) = prefix s t"
  by (metis append_eq_conv_conj prefix_def take_is_prefix)

lemma https_not_http: "prefix ''https://'' t \<Longrightarrow> \<not> prefix ''http://'' t"
  by (auto simp: prefix_def)


lemma matchUrl_alt:
  "matchUrl t =
     (if prefix ''https://'' t \<and> takeWhile (\<lambda>c. \<not> isWhiteSpace c) (drop 8 t) \<noteq> []
      then Some (''https://'' @ takeWhile (\<lambda>c. \<not> isWhiteSpace c) (drop 8 t))
      else if prefix ''http://'' t \<and> takeWhile (\<lambda>c. \<not> isWhiteSpace c) (drop 7 t) \<noteq> []
      then Some (''http://'' @ takeWhile (\<lambda>c. \<not> isWhiteSpace c) (drop 7 t))
      else None)"
proof -
  have a: "(take 8 t = ''https://'') = prefix ''https://'' t"
    by (rule take_eq_prefix) simp
  have b: "(take 7 t = ''http://'') = prefix ''http://'' t"
    by (rule take_eq_prefix) simp
  show ?thesis
  proof (cases "prefix ''https://'' t")
    case True
    then show ?thesis unfolding matchUrl_def Let_def a b
      using https_not_http[of t] by (simp add: eval_nat_numeral)
  next
    case False
    then show ?thesis unfolding matchUrl_def Let_def a b
      by (simp add: eval_nat_numeral)
  qed
qed

lemma prefix_before_ws:
  assumes "pre \<noteq> []" and "isWhiteSpace (last pre)" and "\<forall>c \<in> set s. \<not> isWhiteSpace c"
  shows "prefix s (pre @ rest) = prefix s pre"
proof
  assume "prefix s (pre @ rest)"
  then consider "prefix s pre" | us where "s = pre @ us"
    by (auto simp: prefix_append)
  then show "prefix s pre"
  proof cases
    case 1
    then show ?thesis .
  next
    case 2
    with assms(1) have "last pre \<in> set s" by simp
    with assms(2,3) show ?thesis by blast
  qed
next
  assume "prefix s pre"
  then show "prefix s (pre @ rest)" by (rule prefix_prefix)
qed

lemma run_before_ws:
  assumes "prefix s pre" and "pre \<noteq> []" and "isWhiteSpace (last pre)"
    and "\<forall>c \<in> set s. \<not> isWhiteSpace c" and k: "length s = k"
  shows "takeWhile (\<lambda>c. \<not> isWhiteSpace c) (drop k (pre @ rest))
       = takeWhile (\<lambda>c. \<not> isWhiteSpace c) (drop k pre)"
proof -
  from assms(1) obtain r where pre: "pre = s @ r" by (auto simp: prefix_def)
  have "r \<noteq> []"
  proof
    assume "r = []"
    with pre assms(2) have "last pre \<in> set s" by simp
    with assms(3,4) show False by blast
  qed
  with pre have "last r = last pre" by simp
  with assms(3) have "isWhiteSpace (last r)" by simp
  moreover from \<open>r \<noteq> []\<close> have "last r \<in> set r" by (rule last_in_set)
  ultimately have "takeWhile (\<lambda>c. \<not> isWhiteSpace c) (r @ rest) = takeWhile (\<lambda>c. \<not> isWhiteSpace c) r"
    by (intro takeWhile_append1) auto
  with pre k show ?thesis by auto
qed

lemma no_ws_https: "\<forall>c \<in> set ''https://''. \<not> isWhiteSpace c"
  by (simp add: isWhiteSpace_def)

lemma no_ws_http: "\<forall>c \<in> set ''http://''. \<not> isWhiteSpace c"
  by (simp add: isWhiteSpace_def)

lemma matchUrl_before_ws:
  assumes "pre \<noteq> []" and "isWhiteSpace (last pre)"
  shows "matchUrl (pre @ rest) = matchUrl pre"
proof -
  have p8: "prefix ''https://'' (pre @ rest) = prefix ''https://'' pre"
    using assms no_ws_https by (rule prefix_before_ws)
  have p7: "prefix ''http://'' (pre @ rest) = prefix ''http://'' pre"
    using assms no_ws_http by (rule prefix_before_ws)
  have r8: "takeWhile (\<lambda>c. \<not> isWhiteSpace c) (drop 8 (pre @ rest))
       = takeWhile (\<lambda>c. \<not> isWhiteSpace c) (drop 8 pre)" if "prefix ''https://'' pre"
    by (rule run_before_ws[OF that assms no_ws_https]) simp
  have r7: "takeWhile (\<lambda>c. \<not> isWhiteSpace c) (drop 7 (pre @ rest))
       = takeWhile (\<lambda>c. \<not> isWhiteSpace c) (drop 7 pre)" if "prefix ''http://'' pre"
    by (rule run_before_ws[OF that assms no_ws_http]) simp
  show ?thesis
    unfolding matchUrl_alt[of "pre @ rest"] matchUrl_alt[of pre] p8 p7
    using r8 r7 by auto
qed

lemma matchUrl_Some:
  assumes "matchUrl t = Some m"
  shows "prefix m t \<and> m \<noteq> [] \<and> (\<forall>c \<in> set m. \<not> isWhiteSpace c)"
proof -
  let ?run = "\<lambda>k. takeWhile (\<lambda>c. \<not> isWhiteSpace c) (drop k t)"
  have run: "prefix (?run k) (drop k t)" "\<forall>c \<in> set (?run k). \<not> isWhiteSpace c" for k
    by (auto simp: takeWhile_is_prefix dest: set_takeWhileD)
  have whole: "prefix (s @ ?run k) t" if "prefix s t" and "length s = k" for s k
  proof -
    from that have "t = s @ drop k t" by (auto simp: prefix_def)
    then show ?thesis using run(1)[of k] by (metis same_prefix_prefix)
  qed
  from assms consider
      "prefix ''https://'' t" and "m = ''https://'' @ ?run 8"
    | "prefix ''http://'' t" and "m = ''http://'' @ ?run 7"
    unfolding matchUrl_alt by (auto split: if_splits)
  then show ?thesis
  proof cases
    case 1
    then show ?thesis using whole[of "''https://''" 8] run(2)[of 8] no_ws_https by auto
  next
    case 2
    then show ?thesis using whole[of "''http://''" 7] run(2)[of 7] no_ws_http by auto
  qed
qed

lemma rewritePlaylist_append:
  assumes "pre = [] \<or> isWhiteSpace (last pre)"
  shows "rewritePlaylist (pre @ rest) = rewritePlaylist pre @ rewritePlaylist rest"
  using assms
proof (induction pre rule: rewritePlaylist.induct)
  case 1
  show ?case by (simp add: rewritePlaylist.simps)
next
  case (2 c cs)
  then have ws: "isWhiteSpace (last (c # cs))" by simp
  have same: "matchUrl ((c # cs) @ rest) = matchUrl (c # cs)"
    using ws by (intro matchUrl_before_ws) simp_all
  show ?case
  proof (cases "matchUrl (c # cs)")
    case None
    have "cs = [] \<or> isWhiteSpace (last cs)" using ws by (auto split: if_splits)
    with "2.IH"(1)[OF None] have "rewritePlaylist (cs @ rest) = rewritePlaylist cs @ rewritePlaylist rest" .
    then show ?thesis using None same by (simp add: rewritePlaylist.simps)
  next
    case (Some m)
    let ?d = "drop (length m) (c # cs)"
    from matchUrl_Some[OF Some] have pm: "prefix m (c # cs)"
      and nows: "\<forall>x \<in> set m. \<not> isWhiteSpace x" by simp_all
    then have split: "c # cs = m @ ?d" by (auto simp: prefix_def)
    have "?d \<noteq> []"
    proof
      assume "?d = []"
      with split have "last (c # cs) \<in> set m"
        by (metis append_Nil2 last_in_set list.distinct(1))
      with ws nows show False by blast
    qed
    with split have "last ?d = last (c # cs)" by (metis last_appendR)
    with ws have "?d = [] \<or> isWhiteSpace (last ?d)" by simp
    with "2.IH"(2)[OF Some] have ih: "rewritePlaylist (?d @ rest) = rewritePlaylist ?d @ rewritePlaylist rest" .
    have "length m \<le> length (c # cs)" using pm by (rule prefix_length_le)
    then have "drop (length m) ((c # cs) @ rest) = ?d @ rest"
      by (simp only: drop_append) simp
    then have "drop (length m) (c # (cs @ rest)) = ?d @ rest" by simp
    then show ?thesis using Some same ih by (simp add: rewritePlaylist.simps)
  qed
qed

lemma absoluteUrlToken_cases:
  assumes "absoluteUrlToken tok"
  obtains r where "tok = ''https://'' @ r" and "r \<noteq> []" and "\<forall>c \<in> set r. \<not> isWhiteSpace c"
  | r where "tok = ''http://'' @ r" and "r \<noteq> []" and "\<forall>c \<in> set r. \<not> isWhiteSpace c"
proof -
  from assms have nows: "\<forall>c \<in> set tok. \<not> isWhiteSpace c"
    by (simp add: absoluteUrlToken_def list_all_iff)
  from assms consider "prefix ''https://'' tok" and "8 < length tok"
    | "prefix ''http://'' tok" and "7 < length tok"
    by (auto simp: absoluteUrlToken_def startsWith_prefix)
  then show ?thesis
  proof cases
    case 1
    then obtain r where "tok = ''https://'' @ r" by (auto simp: prefix_def)
    moreover with 1(2) have "r \<noteq> []" by auto
    ultimately show ?thesis using nows that(1) by auto
  next
    case 2
    then obtain r where "tok = ''http://'' @ r" by (auto simp: prefix_def)
    moreover with 2(2) have "r \<noteq> []" by auto
    ultimately show ?thesis using nows that(2) by auto
  qed
qed

lemma run_token:
  assumes "\<forall>c \<in> set r. \<not> isWhiteSpace c" and "post = [] \<or> startsWithWhiteSpace post"
  shows "takeWhile (\<lambda>c. \<not> isWhiteSpace c) (r @ post) = r"
proof -
  have "takeWhile (\<lambda>c. \<not> isWhiteSpace c) post = []"
    using assms(2) by (cases post) (auto simp: startsWithWhiteSpace_def)
  with assms(1) show ?thesis by (simp add: takeWhile_append2)
qed

lemma matchUrl_token:
  assumes "absoluteUrlToken tok" and "post = [] \<or> startsWithWhiteSpace post"
  shows "matchUrl (tok @ post) = Some tok"
  using assms(1)
proof (cases rule: absoluteUrlToken_cases)
  case (1 r)
  then show ?thesis
    unfolding matchUrl_alt using run_token[OF 1(3) assms(2)] by simp
next
  case (2 r)
  then have "\<not> prefix ''https://'' (tok @ post)" by simp
  with 2 show ?thesis
    unfolding matchUrl_alt using run_token[OF 2(3) assms(2)] by simp
qed

lemma rewritePlaylist_token:
  assumes "pre = [] \<or> endsWithWhiteSpace pre" and "absoluteUrlToken tok"
    and "post = [] \<or> startsWithWhiteSpace post"
  shows "rewritePlaylist (pre @ tok @ post)
       = rewritePlaylist pre @ baseProxyUrl @ encodeURIComponent tok @ rewritePlaylist post"
proof -
  have "pre = [] \<or> isWhiteSpace (last pre)"
    using assms(1) by (cases pre rule: rev_cases) (simp_all add: endsWithWhiteSpace_def startsWithWhiteSpace_def)
  then have "rewritePlaylist (pre @ tok @ post) = rewritePlaylist pre @ rewritePlaylist (tok @ post)"
    by (rule rewritePlaylist_append)
  moreover have "rewritePlaylist (tok @ post)
      = baseProxyUrl @ encodeURIComponent tok @ rewritePlaylist post"
  proof -
    from assms(2) have "tok \<noteq> []"
      by (cases rule: absoluteUrlToken_cases) simp_all
    then obtain c cs where cons: "tok @ post = c # cs"
      by (cases tok) simp_all
    have "matchUrl (c # cs) = Some tok"
      using matchUrl_token[OF assms(2,3)] cons by simp
    then have "rewritePlaylist (c # cs)
        = baseProxyUrl @ encodeURIComponent tok @ rewritePlaylist (drop (length tok) (c # cs))"
      by (simp add: rewritePlaylist.simps)
    moreover have "drop (length tok) (tok @ post) = post" by simp
    ultimately show ?thesis by (simp add: cons [symmetric])
  qed
  ultimately show ?thesis by simp
qed

lemma proxy_success:
  assumes "truthy_str (req_url req)"
    and "fetch (template (req_url req)) (forwardedHeaders req) = Inr up" and "up_ok up"
  shows "proxy fetch req =
     (let hdrs = [(''Content-Type'', contentTypeOf up), (''Access-Control-Allow-Origin'', ''*'')]
                 @ copyHeader up ''Content-Length'' @ copyHeader up ''Content-Range'';
          statusCode = (if truthy_str (req_range req) then 206 else 200)
      in if includes_str (contentTypeOf up) ''mpegurl'' \<or> endsWith (template (req_url req)) ''.m3u8''
         then (case up_body up of
                 None \<Rightarrow> \<lparr>res_status = 500, res_headers = hdrs, res_body = Sent ''Proxy failed''\<rparr>
               | Some playlistText \<Rightarrow>
                   \<lparr>res_status = statusCode, res_headers = hdrs,
                    res_body = Sent (rewritePlaylist playlistText)\<rparr>)
         else pipeBody up statusCode hdrs)"
  using assms by (simp add: proxy_def Let_def)










text \<open>
  Claim C5. When the upstream answers with success and the content type contains
  \<^verbatim>\<open>mpegurl\<close> or the url ends with \<^verbatim>\<open>.m3u8\<close>, the body of the reply is the rewritten
  text of the upstream body. In the rewritten text every token that is delimited by
  whitespace (or the ends of the text) and looks like an absolute url stands replaced by
  the proxy base followed by its percent-encoded form, the text before and after it being
  rewritten by themselves. Percent-decoding the encoded form gives the token back. A body
  \<^verbatim>\<open>https://host/seg1.ts\<close> is rewritten to
  \<^verbatim>\<open>http://localhost:3001/proxy?url=https%3A%2F%2Fhost%2Fseg1.ts\<close>.
\<close>

theorem proxy_manifest_rewrite:
  "(truthy_str (req_url req)
      \<and> fetch (template (req_url req)) (forwardedHeaders req) = Inr up \<and> up_ok up
      \<and> (includes_str (contentTypeOf up) ''mpegurl'' \<or> endsWith (template (req_url req)) ''.m3u8'')
      \<and> up_body up = Some playlistText
    \<longrightarrow> res_body (proxy fetch req) = Sent (rewritePlaylist playlistText))
   \<and> ((pre = [] \<or> endsWithWhiteSpace pre) \<and> absoluteUrlToken tok
      \<and> (post = [] \<or> startsWithWhiteSpace post)
    \<longrightarrow> rewritePlaylist (pre @ tok @ post)
        = rewritePlaylist pre @ baseProxyUrl @ encodeURIComponent tok @ rewritePlaylist post)
   \<and> decodeURIComponent (encodeURIComponent x) = Inr x
   \<and> rewritePlaylist ''https://host/seg1.ts''
       = ''http://localhost:3001/proxy?url=https%3A%2F%2Fhost%2Fseg1.ts''
   \<and> decodeURIComponent ''https%3A%2F%2Fhost%2Fseg1.ts'' = Inr ''https://host/seg1.ts''"
proof -
  have manifest: "res_body (proxy fetch req) = Sent (rewritePlaylist playlistText)"
    if "truthy_str (req_url req)"
      and "fetch (template (req_url req)) (forwardedHeaders req) = Inr up" and "up_ok up"
      and "includes_str (contentTypeOf up) ''mpegurl'' \<or> endsWith (template (req_url req)) ''.m3u8''"
      and "up_body up = Some playlistText"
    using proxy_success[of req fetch up, OF that(1,2,3)] that(4,5) by (auto simp: Let_def)
  have token: "rewritePlaylist (pre @ tok @ post)
        = rewritePlaylist pre @ baseProxyUrl @ encodeURIComponent tok @ rewritePlaylist post"
    if "pre = [] \<or> endsWithWhiteSpace pre" and "absoluteUrlToken tok"
      and "post = [] \<or> startsWithWhiteSpace post"
    using that by (rule rewritePlaylist_token)
  have "rewritePlaylist ''https://host/seg1.ts''
       = ''http://localhost:3001/proxy?url=https%3A%2F%2Fhost%2Fseg1.ts''"
    by code_simp
  moreover have "decodeURIComponent ''https%3A%2F%2Fhost%2Fseg1.ts'' = Inr ''https://host/seg1.ts''"
    by code_simp
  ultimately show ?thesis using manifest token decode_encode by blast
qed

theorem proxy_manifest_rewrite_witness:
  "truthy_str (req_url playlistRequest) \<and> up_ok playlist
   \<and> endsWith (template (req_url playlistRequest)) ''.m3u8''
   \<and> endsWithWhiteSpace playlistHead \<and> absoluteUrlToken segmentUrl
   \<and> res_body (proxy playlistServer playlistRequest)
       = Sent (playlistHead @ baseProxyUrl @ encodeURIComponent segmentUrl @ [CHR 0x0A])
   \<and> encodeURIComponent segmentUrl = ''https%3A%2F%2Fhost%2Fseg1.ts''
   \<and> decodeURIComponent (encodeURIComponent segmentUrl) = Inr segmentUrl"
proof -
  have url: "truthy_str (req_url playlistRequest)" by code_simp
  have fetched: "playlistServer (template (req_url playlistRequest)) (forwardedHeaders playlistRequest)
      = Inr playlist"
    by (simp add: playlistServer_def)
  have success: "up_ok playlist" by code_simp
  have name: "endsWith (template (req_url playlistRequest)) ''.m3u8''" by code_simp
  have body: "up_body playlist = Some (playlistHead @ segmentUrl @ [CHR 0x0A])" by code_simp
  have pre: "endsWithWhiteSpace playlistHead" by code_simp
  have tok: "absoluteUrlToken segmentUrl" by code_simp
  have post: "startsWithWhiteSpace [CHR 0x0A]" by code_simp
  have head: "rewritePlaylist playlistHead = playlistHead" by code_simp
  have tail: "rewritePlaylist [CHR 0x0A] = [CHR 0x0A]" by code_simp
  have enc: "encodeURIComponent segmentUrl = ''https%3A%2F%2Fhost%2Fseg1.ts''" by code_simp
  from proxy_manifest_rewrite [of playlistRequest playlistServer playlist
      "playlistHead @ segmentUrl @ [CHR 0x0A]" playlistHead segmentUrl "[CHR 0x0A]" segmentUrl]
    url fetched success name body pre tok post
  have "res_body (proxy playlistServer playlistRequest)
      = Sent (rewritePlaylist (playlistHead @ segmentUrl @ [CHR 0x0A]))"
    and "rewritePlaylist (playlistHead @ segmentUrl @ [CHR 0x0A])
      = rewritePlaylist playlistHead @ baseProxyUrl @ encodeURIComponent segmentUrl
        @ rewritePlaylist [CHR 0x0A]"
    and "decodeURIComponent (encodeURIComponent segmentUrl) = Inr segmentUrl"
    by simp_all
  with url success name pre tok head tail enc show ?thesis by simp
qed

end
